theory Spec2Isabelle
  imports Complex_Main "HOL-Library.AList"
begin

section \<open>JavaScript values\<close>

text \<open>
  A JavaScript number is modelled as an exact rational: the finite doubles, with the
  rounding of floating-point arithmetic left out. \<open>NaN\<close> and the infinities are not
  values of the model. The model is used where the code compares numbers, takes floors
  and adds whole quantities, which doubles do exactly in the ranges concerned; the
  computation of money amounts (\<open>getSubtotal\<close>, \<open>getCartTotal\<close>), whose results depend on
  how doubles round, is not part of it. The arguments a caller passes to the cart and to
  the validator are the values below.
\<close>

type_synonym number = rat

datatype jsval =
    JUndefined
  | JNull
  | JBool bool
  | JNum number
  | JStr string
  | JArr "jsval list"
  | JObj "(string \<times> jsval) list"

definition Number_isInteger :: "number \<Rightarrow> bool" where
  "Number_isInteger r = (of_int \<lfloor>r\<rfloor> = r)"

definition Math_floor :: "number \<Rightarrow> number" where
  "Math_floor r = of_int \<lfloor>r\<rfloor>"

definition Math_abs :: "number \<Rightarrow> number" where
  "Math_abs r = \<bar>r\<bar>"

definition is_space :: "char \<Rightarrow> bool" where
  "is_space c = (c \<in> set [CHR '' '', CHR 0x09, CHR 0x0A, CHR 0x0B, CHR 0x0C, CHR 0x0D])"

definition is_digit :: "char \<Rightarrow> bool" where
  "is_digit c = (c \<in> set ''0123456789'')"

definition digit_val :: "char \<Rightarrow> nat" where
  "digit_val c = of_char c - 48"

definition digits_val :: "string \<Rightarrow> nat" where
  "digits_val ds = foldl (\<lambda>a c. 10 * a + digit_val c) 0 ds"

definition digit_char :: "nat \<Rightarrow> char" where
  "digit_char d = char_of (48 + d)"

definition js_trim :: "string \<Rightarrow> string" where
  "js_trim s = rev (dropWhile is_space (rev (dropWhile is_space s)))"

text \<open>The decimal digits of a natural number, as template literals and \<open>String\<close> print it.\<close>

fun show_nat :: "nat \<Rightarrow> string" where
  "show_nat n = (if n < 10 then [digit_char n] else show_nat (n div 10) @ [digit_char (n mod 10)])"

declare show_nat.simps [simp del]

fun frac_digits :: "nat \<Rightarrow> number \<Rightarrow> string" where
  "frac_digits 0 f = []"
| "frac_digits (Suc k) f =
     (if f = 0 then []
      else digit_char (nat \<lfloor>f * 10\<rfloor>) # frac_digits k (f * 10 - of_int \<lfloor>f * 10\<rfloor>))"

text \<open>
  A number as text: the sign, the integer part and, for a fraction, its decimal digits
  (at most twenty; the exponent forms of very large and very small doubles are left out).
\<close>

definition show_number :: "number \<Rightarrow> string" where
  "show_number r =
     (let a = \<bar>r\<bar>; f = a - of_int \<lfloor>a\<rfloor> in
      (if r < 0 then ''-'' else []) @ show_nat (nat \<lfloor>a\<rfloor>)
      @ (if f = 0 then [] else CHR ''.'' # frac_digits 20 f))"

definition join_with :: "string \<Rightarrow> string list \<Rightarrow> string" where
  "join_with sep xs = (case xs of [] \<Rightarrow> [] | y # ys \<Rightarrow> y @ concat (map (\<lambda>z. sep @ z) ys))"

text \<open>\<open>String(value)\<close>: an array joins its elements with commas, \<open>null\<close> and
  \<open>undefined\<close> elements being empty.\<close>

fun js_String :: "jsval \<Rightarrow> string" where
  "js_String JUndefined = ''undefined''"
| "js_String JNull = ''null''"
| "js_String (JBool b) = (if b then ''true'' else ''false'')"
| "js_String (JNum r) = show_number r"
| "js_String (JStr s) = s"
| "js_String (JArr xs) =
     join_with '','' (map (\<lambda>x. if x = JNull \<or> x = JUndefined then [] else js_String x) xs)"
| "js_String (JObj fs) = ''[object Object]''"

text \<open>Truthiness, \<open>typeof\<close> tests and property reads.\<close>

fun truthy :: "jsval \<Rightarrow> bool" where
  "truthy JUndefined = False"
| "truthy JNull = False"
| "truthy (JBool b) = b"
| "truthy (JNum r) = (r \<noteq> 0)"
| "truthy (JStr s) = (s \<noteq> [])"
| "truthy (JArr xs) = True"
| "truthy (JObj fs) = True"

fun typeof_number :: "jsval \<Rightarrow> bool" where
  "typeof_number (JNum r) = True"
| "typeof_number v = False"

fun typeof_object :: "jsval \<Rightarrow> bool" where
  "typeof_object JNull = True"
| "typeof_object (JArr xs) = True"
| "typeof_object (JObj fs) = True"
| "typeof_object v = False"

fun Array_isArray :: "jsval \<Rightarrow> bool" where
  "Array_isArray (JArr xs) = True"
| "Array_isArray v = False"

text \<open>
  Reading one of the properties the code reads (\<open>items\<close>, \<open>timestamp\<close>,
  \<open>productId\<close>, \<open>quantity\<close>, \<open>addedAt\<close>, \<open>data\<close>) from a value that is neither
  \<open>null\<close> nor \<open>undefined\<close>: an object gives the field or \<open>undefined\<close>, every other
  value \<open>undefined\<close>.
\<close>

fun get_prop :: "jsval \<Rightarrow> string \<Rightarrow> jsval" where
  "get_prop (JObj fs) k = (case map_of fs k of Some v \<Rightarrow> v | None \<Rightarrow> JUndefined)"
| "get_prop v k = JUndefined"

fun nullish :: "jsval \<Rightarrow> bool" where
  "nullish JUndefined = True"
| "nullish JNull = True"
| "nullish v = False"

text \<open>
  \<open>parseFloat\<close> on a text made of digits, points and minus signs (all the number
  sanitizer gives it): an optional sign, digits, an optional point and digits, at least
  one digit in all; the longest such prefix is read and the rest ignored. \<open>None\<close> is
  \<open>NaN\<close>.
\<close>

definition parseFloat :: "string \<Rightarrow> number option" where
  "parseFloat s =
     (let (neg, r) = (case s of c # t \<Rightarrow> if c = CHR ''-'' then (True, t)
                                        else if c = CHR ''+'' then (False, t) else (False, s)
                      | [] \<Rightarrow> (False, s));
          ip = takeWhile is_digit r;
          r1 = dropWhile is_digit r;
          fp = (case r1 of c # t \<Rightarrow> if c = CHR ''.'' then takeWhile is_digit t else []
                | [] \<Rightarrow> []);
          v = of_nat (digits_val ip) + of_nat (digits_val fp) / 10 ^ length fp
      in if ip = [] \<and> fp = [] then None else Some (if neg then - v else v))"

section \<open>JSON texts\<close>

text \<open>
  \<open>JSON.stringify\<close> and \<open>JSON.parse\<close> are built into the runtime; they are modelled
  here so that the stored texts of the claims can be evaluated. Characters are bytes:
  a \<open>\u\<close> escape is not read. \<open>None\<close> from \<open>JSON_stringify\<close> is \<open>undefined\<close>, from
  \<open>JSON_parse\<close> a \<open>SyntaxError\<close>.
\<close>

definition hex_char :: "nat \<Rightarrow> char" where
  "hex_char d = ''0123456789abcdef'' ! (d mod 16)"

definition escape_char :: "char \<Rightarrow> string" where
  "escape_char c =
     (if c = CHR 0x22 then [CHR 0x5C, CHR 0x22]
      else if c = CHR 0x5C then [CHR 0x5C, CHR 0x5C]
      else if c = CHR 0x08 then [CHR 0x5C, CHR ''b'']
      else if c = CHR 0x0C then [CHR 0x5C, CHR ''f'']
      else if c = CHR 0x0A then [CHR 0x5C, CHR ''n'']
      else if c = CHR 0x0D then [CHR 0x5C, CHR ''r'']
      else if c = CHR 0x09 then [CHR 0x5C, CHR ''t'']
      else if (of_char c :: nat) < 32
        then [CHR 0x5C, CHR ''u'', CHR ''0'', CHR ''0'', hex_char (of_char c div 16), hex_char (of_char c)]
      else [c])"

definition quote_string :: "string \<Rightarrow> string" where
  "quote_string s = CHR 0x22 # concat (map escape_char s) @ [CHR 0x22]"

fun JSON_stringify :: "jsval \<Rightarrow> string option" where
  "JSON_stringify JUndefined = None"
| "JSON_stringify JNull = Some ''null''"
| "JSON_stringify (JBool b) = Some (if b then ''true'' else ''false'')"
| "JSON_stringify (JNum r) = Some (show_number r)"
| "JSON_stringify (JStr s) = Some (quote_string s)"
| "JSON_stringify (JArr xs) =
     Some (''['' @ join_with '',''
        (map (\<lambda>x. case JSON_stringify x of None \<Rightarrow> ''null'' | Some t \<Rightarrow> t) xs) @ '']'')"
| "JSON_stringify (JObj fs) =
     Some (''{'' @ join_with '',''
        (concat (map (\<lambda>kv. case JSON_stringify (snd kv) of None \<Rightarrow> []
                              | Some t \<Rightarrow> [quote_string (fst kv) @ '':'' @ t]) fs)) @ ''}'')"

text \<open>What \<open>setItem\<close> stores for the result of \<open>JSON.stringify\<close>.\<close>

definition stringify_text :: "jsval \<Rightarrow> string" where
  "stringify_text v = (case JSON_stringify v of None \<Rightarrow> ''undefined'' | Some t \<Rightarrow> t)"

datatype token = TLBrace | TRBrace | TLBrack | TRBrack | TComma | TColon
  | TString string | TNumber number | TTrue | TFalse | TNull

datatype lstate = LStart | LStr string | LEsc string | LNum string | LWord string

definition is_json_ws :: "char \<Rightarrow> bool" where
  "is_json_ws c = (c \<in> set [CHR '' '', CHR 0x09, CHR 0x0A, CHR 0x0D])"

definition is_num_char :: "char \<Rightarrow> bool" where
  "is_num_char c = (is_digit c \<or> c \<in> set ''+-.eE'')"

definition is_lower :: "char \<Rightarrow> bool" where
  "is_lower c = (c \<in> set ''abcdefghijklmnopqrstuvwxyz'')"

text \<open>A JSON number: sign, integer part with no leading zero, fraction, exponent.\<close>

definition json_number :: "string \<Rightarrow> number option" where
  "json_number s =
     (let (neg, r) = (case s of c # t \<Rightarrow> if c = CHR ''-'' then (True, t) else (False, s)
                      | [] \<Rightarrow> (False, s));
          ip = takeWhile is_digit r;
          r1 = dropWhile is_digit r;
          (hasfrac, fp, r2) =
            (case r1 of c # t \<Rightarrow> if c = CHR ''.''
                                   then (True, takeWhile is_digit t, dropWhile is_digit t)
                                   else (False, [], r1)
             | [] \<Rightarrow> (False, [], r1));
          (ok_exp, e) =
            (case r2 of [] \<Rightarrow> (True, 0 :: int)
             | c # t \<Rightarrow>
                 if c = CHR ''e'' \<or> c = CHR ''E'' then
                   (let (eneg, ds) =
                          (case t of d # u \<Rightarrow> if d = CHR ''-'' then (True, u)
                                                else if d = CHR ''+'' then (False, u) else (False, t)
                           | [] \<Rightarrow> (False, t))
                    in (ds \<noteq> [] \<and> list_all is_digit ds,
                        if eneg then - int (digits_val ds) else int (digits_val ds)))
                 else (False, 0))
      in if ip = [] \<or> (length ip > 1 \<and> take 1 ip = ''0'') \<or> (hasfrac \<and> fp = []) \<or> \<not> ok_exp
         then None
         else (let m = of_nat (digits_val ip) + of_nat (digits_val fp) / 10 ^ length fp;
                   v = (if e \<ge> 0 then m * 10 ^ nat e else m / 10 ^ nat (- e))
               in Some (if neg then - v else v)))"

definition unescape :: "char \<Rightarrow> char option" where
  "unescape c =
     (if c = CHR 0x22 then Some (CHR 0x22)
      else if c = CHR 0x5C then Some (CHR 0x5C)
      else if c = CHR ''/'' then Some (CHR ''/'')
      else if c = CHR ''b'' then Some (CHR 0x08)
      else if c = CHR ''f'' then Some (CHR 0x0C)
      else if c = CHR ''n'' then Some (CHR 0x0A)
      else if c = CHR ''r'' then Some (CHR 0x0D)
      else if c = CHR ''t'' then Some (CHR 0x09)
      else None)"

definition lex_start :: "token list \<Rightarrow> char \<Rightarrow> (lstate \<times> token list) option" where
  "lex_start acc c =
     (if is_json_ws c then Some (LStart, acc)
      else if c = CHR ''{'' then Some (LStart, TLBrace # acc)
      else if c = CHR ''}'' then Some (LStart, TRBrace # acc)
      else if c = CHR ''['' then Some (LStart, TLBrack # acc)
      else if c = CHR '']'' then Some (LStart, TRBrack # acc)
      else if c = CHR '','' then Some (LStart, TComma # acc)
      else if c = CHR '':'' then Some (LStart, TColon # acc)
      else if c = CHR 0x22 then Some (LStr [], acc)
      else if c = CHR ''-'' \<or> is_digit c then Some (LNum [c], acc)
      else if is_lower c then Some (LWord [c], acc)
      else None)"

definition finish_num :: "token list \<Rightarrow> string \<Rightarrow> token list option" where
  "finish_num acc n = (case json_number (rev n) of None \<Rightarrow> None | Some r \<Rightarrow> Some (TNumber r # acc))"

definition finish_word :: "token list \<Rightarrow> string \<Rightarrow> token list option" where
  "finish_word acc w =
     (if rev w = ''true'' then Some (TTrue # acc)
      else if rev w = ''false'' then Some (TFalse # acc)
      else if rev w = ''null'' then Some (TNull # acc)
      else None)"

fun lex_step :: "lstate \<times> token list \<Rightarrow> char \<Rightarrow> (lstate \<times> token list) option" where
  "lex_step (LStart, acc) c = lex_start acc c"
| "lex_step (LStr s, acc) c =
     (if c = CHR 0x22 then Some (LStart, TString (rev s) # acc)
      else if c = CHR 0x5C then Some (LEsc s, acc)
      else if (of_char c :: nat) < 32 then None
      else Some (LStr (c # s), acc))"
| "lex_step (LEsc s, acc) c =
     (case unescape c of None \<Rightarrow> None | Some d \<Rightarrow> Some (LStr (d # s), acc))"
| "lex_step (LNum n, acc) c =
     (if is_num_char c then Some (LNum (c # n), acc)
      else case finish_num acc n of None \<Rightarrow> None | Some acc' \<Rightarrow> lex_start acc' c)"
| "lex_step (LWord w, acc) c =
     (if is_lower c then Some (LWord (c # w), acc)
      else case finish_word acc w of None \<Rightarrow> None | Some acc' \<Rightarrow> lex_start acc' c)"

fun fold_option :: "('s \<Rightarrow> 'a \<Rightarrow> 's option) \<Rightarrow> 's \<Rightarrow> 'a list \<Rightarrow> 's option" where
  "fold_option f s [] = Some s"
| "fold_option f s (x # xs) = (case f s x of None \<Rightarrow> None | Some s' \<Rightarrow> fold_option f s' xs)"

definition tokenize :: "string \<Rightarrow> token list option" where
  "tokenize s =
     (case fold_option lex_step (LStart, []) s of
        None \<Rightarrow> None
      | Some (st, acc) \<Rightarrow>
          (case st of
             LStart \<Rightarrow> Some (rev acc)
           | LNum n \<Rightarrow> map_option rev (finish_num acc n)
           | LWord w \<Rightarrow> map_option rev (finish_word acc w)
           | _ \<Rightarrow> None))"

datatype frame = FArr "jsval list" | FObj "(string \<times> jsval) list" string

datatype pmode = PValue | PValueOrClose | PKeyOrClose | PKey | PColon | PAfter | PDone jsval

fun push_value :: "jsval \<Rightarrow> frame list \<Rightarrow> pmode \<times> frame list" where
  "push_value v [] = (PDone v, [])"
| "push_value v (FArr es # st) = (PAfter, FArr (es @ [v]) # st)"
| "push_value v (FObj fs k # st) = (PAfter, FObj (AList.update k v fs) k # st)"

fun token_value :: "token \<Rightarrow> jsval option" where
  "token_value (TString s) = Some (JStr s)"
| "token_value (TNumber r) = Some (JNum r)"
| "token_value TTrue = Some (JBool True)"
| "token_value TFalse = Some (JBool False)"
| "token_value TNull = Some JNull"
| "token_value t = None"

fun close_array :: "frame list \<Rightarrow> (pmode \<times> frame list) option" where
  "close_array (FArr es # st) = Some (push_value (JArr es) st)"
| "close_array st = None"

fun close_object :: "frame list \<Rightarrow> (pmode \<times> frame list) option" where
  "close_object (FObj fs k # st) = Some (push_value (JObj fs) st)"
| "close_object st = None"

fun set_key :: "string \<Rightarrow> frame list \<Rightarrow> (pmode \<times> frame list) option" where
  "set_key k (FObj fs k0 # st) = Some (PColon, FObj fs k # st)"
| "set_key k st = None"

fun parse_value_token :: "token \<Rightarrow> frame list \<Rightarrow> (pmode \<times> frame list) option" where
  "parse_value_token TLBrack st = Some (PValueOrClose, FArr [] # st)"
| "parse_value_token TLBrace st = Some (PKeyOrClose, FObj [] [] # st)"
| "parse_value_token t st = map_option (\<lambda>v. push_value v st) (token_value t)"

fun parse_step :: "pmode \<times> frame list \<Rightarrow> token \<Rightarrow> (pmode \<times> frame list) option" where
  "parse_step (PValue, st) t = parse_value_token t st"
| "parse_step (PValueOrClose, st) t =
     (if t = TRBrack then close_array st else parse_value_token t st)"
| "parse_step (PKeyOrClose, st) t =
     (case t of TRBrace \<Rightarrow> close_object st | TString k \<Rightarrow> set_key k st | _ \<Rightarrow> None)"
| "parse_step (PKey, st) t = (case t of TString k \<Rightarrow> set_key k st | _ \<Rightarrow> None)"
| "parse_step (PColon, st) t = (if t = TColon then Some (PValue, st) else None)"
| "parse_step (PAfter, st) t =
     (case t of
        TComma \<Rightarrow> (case st of FArr es # r \<Rightarrow> Some (PValue, st)
                    | FObj fs k # r \<Rightarrow> Some (PKey, st)
                    | [] \<Rightarrow> None)
      | TRBrack \<Rightarrow> close_array st
      | TRBrace \<Rightarrow> close_object st
      | _ \<Rightarrow> None)"
| "parse_step (PDone v, st) t = None"

definition JSON_parse :: "string \<Rightarrow> jsval option" where
  "JSON_parse s =
     (case tokenize s of
        None \<Rightarrow> None
      | Some ts \<Rightarrow>
          (case fold_option parse_step (PValue, []) ts of
             Some (PDone v, []) \<Rightarrow> Some v
           | _ \<Rightarrow> None))"

section \<open>Products and the catalog (models, products.js)\<close>

record product =
  p_id :: number
  p_name :: string
  p_description :: string
  p_price :: number
  p_image :: string
  p_category :: string

datatype verr = Required | TypeError | TooSmall number | TooLarge number | NotWhole | CustomFailed

datatype error =
    ProductIdMustBeNumber
  | ProductNameInvalid
  | ProductDescriptionInvalid
  | ProductPriceInvalid
  | ProductImageInvalid
  | ItemProductIdInvalid
  | QuantityMustBeNonNegativeInteger
  | ProductIdMustBePositive
  | InvalidProductId "verr list"
  | InvalidQuantity "verr list"
  | ProductNotFound number
  | TotalQuantityInvalid "verr list"
  | FailedToAddItem error
  | NotFoundInCart number
  | FailedToUpdateQuantity error

text \<open>
  \<open>Product.validate\<close>. The fields are typed, so the \<open>typeof\<close> tests hold; what is
  left is the truthiness of each field and the sign of the price.
\<close>

definition Product_validate :: "product \<Rightarrow> error option" where
  "Product_validate p =
     (if p_id p = 0 then Some ProductIdMustBeNumber
      else if p_name p = [] \<or> length (js_trim (p_name p)) = 0 then Some ProductNameInvalid
      else if p_description p = [] then Some ProductDescriptionInvalid
      else if p_price p < 0 then Some ProductPriceInvalid
      else if p_image p = [] then Some ProductImageInvalid
      else None)"

text \<open>\<open>Product.fromObject\<close> inside the \<open>try\<close> of \<open>loadProducts\<close>: a failure is \<open>null\<close>.\<close>

definition Product_fromObject :: "product \<Rightarrow> product option" where
  "Product_fromObject d = (case Product_validate d of None \<Rightarrow> Some d | Some e \<Rightarrow> None)"

definition SAMPLE_PRODUCTS :: "product list" where
  "SAMPLE_PRODUCTS =
    [\<lparr>p_id = 1, p_name = ''Wireless Headphones'',
      p_description = ''High quality wireless headphones with noise cancellation and 30-hour battery life.'',
      p_price = 5999 / 100,
      p_image = ''https://images.unsplash.com/photo-1505740420928-5e560c06d30e?w=300&h=300&fit=crop'',
      p_category = ''electronics''\<rparr>,
     \<lparr>p_id = 2, p_name = ''Smart Watch'',
      p_description = ''Track your fitness, notifications, and health metrics with this advanced smartwatch.'',
      p_price = 19999 / 100,
      p_image = ''https://images.unsplash.com/photo-1523275335684-37898b6baf30?w=300&h=300&fit=crop'',
      p_category = ''electronics''\<rparr>,
     \<lparr>p_id = 3, p_name = ''Bluetooth Speaker'',
      p_description = ''Portable speaker with deep bass, waterproof design, and 12-hour battery life.'',
      p_price = 3999 / 100,
      p_image = ''https://images.unsplash.com/photo-1608043152269-423dbba4e7e1?w=300&h=300&fit=crop'',
      p_category = ''electronics''\<rparr>,
     \<lparr>p_id = 4, p_name = ''Fitness Tracker'',
      p_description = ''Monitor your health, steps, heart rate, and sleep patterns with this lightweight tracker.'',
      p_price = 7999 / 100,
      p_image = ''https://images.unsplash.com/photo-1575311373937-040b8e1fd5b6?w=300&h=300&fit=crop'',
      p_category = ''electronics''\<rparr>,
     \<lparr>p_id = 5, p_name = ''Laptop Stand'',
      p_description = ''Ergonomic aluminum laptop stand with adjustable height and cooling design.'',
      p_price = 4999 / 100,
      p_image = ''https://images.unsplash.com/photo-1527864550417-7fd91fc51a46?w=300&h=300&fit=crop'',
      p_category = ''accessories''\<rparr>,
     \<lparr>p_id = 6, p_name = ''Wireless Mouse'',
      p_description = ''Precision wireless mouse with ergonomic design and long-lasting battery.'',
      p_price = 2499 / 100,
      p_image = ''https://images.unsplash.com/photo-1527814050087-3793815479db?w=300&h=300&fit=crop'',
      p_category = ''accessories''\<rparr>,
     \<lparr>p_id = 7, p_name = ''USB-C Hub'',
      p_description = ''Multi-port USB-C hub with HDMI, USB 3.0, and fast charging capabilities.'',
      p_price = 3499 / 100,
      p_image = ''https://images.unsplash.com/photo-1625842268584-8f3296236761?w=300&h=300&fit=crop'',
      p_category = ''accessories''\<rparr>,
     \<lparr>p_id = 8, p_name = ''Phone Case'',
      p_description = ''Durable protective phone case with shock absorption and wireless charging support.'',
      p_price = 1999 / 100,
      p_image = ''https://images.unsplash.com/photo-1556656793-08538906a9f8?w=300&h=300&fit=crop'',
      p_category = ''accessories''\<rparr>]"

definition loadProducts :: "product list \<Rightarrow> product list" where
  "loadProducts raw = List.map_filter Product_fromObject raw"

text \<open>\<open>getProductById\<close>: raises on a value that is not a number, else the first match or \<open>null\<close>.\<close>

definition findProduct :: "product list \<Rightarrow> number \<Rightarrow> product option" where
  "findProduct products i = find (\<lambda>p. p_id p = i) products"

fun getProductById :: "product list \<Rightarrow> jsval \<Rightarrow> error + product option" where
  "getProductById products (JNum i) = Inr (findProduct products i)"
| "getProductById products v = Inl ProductIdMustBeNumber"

section \<open>The input validator (cart-relevant rules)\<close>

datatype rule_kind = Quantity | ProductId

record rules =
  required :: bool
  rule_min :: "number option"
  rule_max :: "number option"
  rule_integer :: bool
  custom :: "number \<Rightarrow> bool"

definition validationRules :: "product list \<Rightarrow> rule_kind \<Rightarrow> rules" where
  "validationRules products k =
     (case k of
        Quantity \<Rightarrow> \<lparr>required = True, rule_min = Some 0, rule_max = Some 999, rule_integer = True,
                     custom = (\<lambda>v. if v = 0 then True else v > 0)\<rparr>
      | ProductId \<Rightarrow> \<lparr>required = True, rule_min = Some 1, rule_max = None, rule_integer = True,
                      custom = (\<lambda>v. findProduct products v \<noteq> None)\<rparr>)"

text \<open>The number sanitizer; \<open>None\<close> is its \<open>null\<close>.\<close>

definition keep_numeric :: "string \<Rightarrow> string" where
  "keep_numeric s = filter (\<lambda>c. is_digit c \<or> c = CHR ''.'' \<or> c = CHR ''-'') s"

definition sanitize_number :: "jsval \<Rightarrow> number option" where
  "sanitize_number v =
     (if v = JNull \<or> v = JUndefined \<or> v = JStr [] then None
      else case v of
        JNum r \<Rightarrow> Some r
      | _ \<Rightarrow> parseFloat (keep_numeric (js_trim (js_String v))))"

text \<open>The integer sanitizer: the number sanitizer, then \<open>Math.floor\<close>.\<close>

definition sanitize_integer :: "jsval \<Rightarrow> number option" where
  "sanitize_integer v =
     (case sanitize_number v of None \<Rightarrow> None | Some numberValue \<Rightarrow> Some (Math_floor numberValue))"

text \<open>\<open>sanitize\<close>: both cart kinds map to the integer sanitizer.\<close>

definition sanitize :: "jsval \<Rightarrow> rule_kind \<Rightarrow> number option" where
  "sanitize v k = (case k of Quantity \<Rightarrow> sanitize_integer v | ProductId \<Rightarrow> sanitize_integer v)"

record validation_result =
  isValid :: bool
  errors :: "verr list"
  sanitizedValue :: "number option"

definition validate :: "product list \<Rightarrow> jsval \<Rightarrow> rule_kind \<Rightarrow> validation_result" where
  "validate products v k =
     (let rs = validationRules products k in
      case sanitize v k of
        None \<Rightarrow>
          (if required rs then \<lparr>isValid = False, errors = [Required], sanitizedValue = None\<rparr>
           else \<lparr>isValid = True, errors = [], sanitizedValue = None\<rparr>)
      | Some sv \<Rightarrow>
          (let es = (case rule_min rs of Some m \<Rightarrow> if sv < m then [TooSmall m] else [] | None \<Rightarrow> [])
                  @ (case rule_max rs of Some m \<Rightarrow> if sv > m then [TooLarge m] else [] | None \<Rightarrow> [])
                  @ (if rule_integer rs \<and> \<not> Number_isInteger sv then [NotWhole] else [])
                  @ (if custom rs sv then [] else [CustomFailed])
           in \<lparr>isValid = (es = []), errors = es, sanitizedValue = Some sv\<rparr>))"

definition validateQuantity :: "product list \<Rightarrow> jsval \<Rightarrow> validation_result" where
  "validateQuantity products q = validate products q Quantity"

definition validateProductId :: "product list \<Rightarrow> jsval \<Rightarrow> validation_result" where
  "validateProductId products i = validate products i ProductId"

section \<open>Durable storage\<close>

text \<open>
  \<open>localStorage\<close> is a list of key and text pairs in enumeration order. The environment
  may make it fail: with an access fault every call raises (a \<open>SecurityError\<close>, say),
  with a write fault \<open>setItem\<close> raises (a \<open>QuotaExceededError\<close>, say).
\<close>

record exn =
  exn_name :: string
  exn_message :: string

record storage =
  entries :: "(string \<times> string) list"
  accessFault :: "exn option"
  writeFault :: "exn option"

definition Storage_getItem :: "storage \<Rightarrow> string \<Rightarrow> exn + string option" where
  "Storage_getItem st k =
     (case accessFault st of Some e \<Rightarrow> Inl e | None \<Rightarrow> Inr (map_of (entries st) k))"

definition Storage_setItem :: "storage \<Rightarrow> string \<Rightarrow> string \<Rightarrow> exn + storage" where
  "Storage_setItem st k v =
     (case accessFault st of
        Some e \<Rightarrow> Inl e
      | None \<Rightarrow> (case writeFault st of
                   Some e \<Rightarrow> Inl e
                 | None \<Rightarrow> Inr (st\<lparr>entries := AList.update k v (entries st)\<rparr>)))"

definition Storage_removeItem :: "storage \<Rightarrow> string \<Rightarrow> exn + storage" where
  "Storage_removeItem st k =
     (case accessFault st of
        Some e \<Rightarrow> Inl e
      | None \<Rightarrow> Inr (st\<lparr>entries := AList.delete k (entries st)\<rparr>))"

text \<open>The keys \<open>key(0)\<close>, ..., \<open>key(length - 1)\<close>.\<close>

definition Storage_keys :: "storage \<Rightarrow> exn + string list" where
  "Storage_keys st =
     (case accessFault st of Some e \<Rightarrow> Inl e | None \<Rightarrow> Inr (map fst (entries st)))"

text \<open>The clock: what \<open>Date.now()\<close> and \<open>new Date().toISOString()\<close> give during a call.\<close>

record clock =
  now_ms :: nat
  now_iso :: string

section \<open>Data recovery\<close>

record strategy =
  s_validate :: "jsval \<Rightarrow> bool"
  s_repair :: "jsval \<Rightarrow> jsval"
  s_fallback :: jsval

definition cart_item_ok :: "jsval \<Rightarrow> bool" where
  "cart_item_ok item =
     (truthy item \<and>
      (case get_prop item ''productId'' of
         JNum p \<Rightarrow> (case get_prop item ''quantity'' of JNum q \<Rightarrow> q \<ge> 0 | _ \<Rightarrow> False)
       | _ \<Rightarrow> False))"

definition cart_validate :: "jsval \<Rightarrow> bool" where
  "cart_validate d =
     (if \<not> truthy d \<or> \<not> typeof_object d then False
      else case get_prop d ''items'' of
             JArr its \<Rightarrow> list_all cart_item_ok its
           | _ \<Rightarrow> False)"

definition cart_item_keep :: "jsval \<Rightarrow> bool" where
  "cart_item_keep item =
     (truthy item \<and>
      (case get_prop item ''productId'' of
         JNum p \<Rightarrow> p > 0 \<and> (case get_prop item ''quantity'' of JNum q \<Rightarrow> q > 0 | _ \<Rightarrow> False)
       | _ \<Rightarrow> False))"

definition or_else :: "jsval \<Rightarrow> jsval \<Rightarrow> jsval" where
  "or_else a b = (if truthy a then a else b)"

fun abs_floor :: "jsval \<Rightarrow> jsval" where
  "abs_floor (JNum r) = JNum (Math_floor (Math_abs r))"
| "abs_floor v = v"

definition cart_item_fix :: "string \<Rightarrow> jsval \<Rightarrow> jsval" where
  "cart_item_fix stamp item =
     JObj [(''productId'', abs_floor (get_prop item ''productId'')),
           (''quantity'', abs_floor (get_prop item ''quantity'')),
           (''addedAt'', or_else (get_prop item ''addedAt'') (JStr stamp))]"

definition cart_repair :: "string \<Rightarrow> jsval \<Rightarrow> jsval" where
  "cart_repair stamp d =
     (if \<not> truthy d \<or> \<not> typeof_object d
      then JObj [(''items'', JArr []), (''timestamp'', JStr stamp)]
      else JObj [(''items'',
                  (case get_prop d ''items'' of
                     JArr its \<Rightarrow> JArr (map (cart_item_fix stamp) (filter cart_item_keep its))
                   | _ \<Rightarrow> JArr [])),
                 (''timestamp'', or_else (get_prop d ''timestamp'') (JStr stamp))])"

definition cart_fallback :: "string \<Rightarrow> jsval" where
  "cart_fallback stamp = JObj [(''items'', JArr []), (''timestamp'', JStr stamp)]"

definition preferences_defaults :: "(string \<times> jsval) list" where
  "preferences_defaults =
     [(''theme'', JStr ''light''), (''currency'', JStr ''USD''), (''notifications'', JBool True)]"

text \<open>The object spread \<open>{...defaults, ...data}\<close>.\<close>

fun spread_into :: "(string \<times> jsval) list \<Rightarrow> jsval \<Rightarrow> (string \<times> jsval) list" where
  "spread_into base (JObj fs) = foldl (\<lambda>acc kv. AList.update (fst kv) (snd kv) acc) base fs"
| "spread_into base (JArr xs) =
     foldl (\<lambda>acc kv. AList.update (fst kv) (snd kv) acc) base (zip (map show_nat [0..<length xs]) xs)"
| "spread_into base v = base"

definition preferences_validate :: "jsval \<Rightarrow> bool" where
  "preferences_validate d = (truthy d \<and> typeof_object d)"

definition preferences_repair :: "jsval \<Rightarrow> jsval" where
  "preferences_repair d =
     (if \<not> truthy d \<or> \<not> typeof_object d then JObj preferences_defaults
      else JObj (spread_into preferences_defaults d))"

definition recoveryStrategies :: "string \<Rightarrow> string \<Rightarrow> strategy option" where
  "recoveryStrategies stamp dataType =
     (if dataType = ''cart''
      then Some \<lparr>s_validate = cart_validate, s_repair = cart_repair stamp, s_fallback = cart_fallback stamp\<rparr>
      else if dataType = ''preferences''
      then Some \<lparr>s_validate = preferences_validate, s_repair = preferences_repair,
                 s_fallback = JObj preferences_defaults\<rparr>
      else None)"

definition getFallbackData :: "string \<Rightarrow> string \<Rightarrow> jsval" where
  "getFallbackData stamp dataType =
     (case recoveryStrategies stamp dataType of Some st \<Rightarrow> s_fallback st | None \<Rightarrow> JNull)"

subsection \<open>Repair of a malformed text\<close>

definition count_char :: "char \<Rightarrow> string \<Rightarrow> nat" where
  "count_char c s = length (filter (\<lambda>x. x = c) s)"

text \<open>The replacement of \<open>/,(\s*[}\]])/g\<close> by its group: a comma before a closer goes.\<close>

fun strip_trailing_commas :: "string \<Rightarrow> string" where
  "strip_trailing_commas [] = []"
| "strip_trailing_commas (c # cs) =
     (if c = CHR '','' \<and>
         (case dropWhile is_space cs of d # r \<Rightarrow> d = CHR ''}'' \<or> d = CHR '']'' | [] \<Rightarrow> False)
      then strip_trailing_commas cs
      else c # strip_trailing_commas cs)"

definition is_ident_start :: "char \<Rightarrow> bool" where
  "is_ident_start c =
     (c \<in> set ''abcdefghijklmnopqrstuvwxyzABCDEFGHIJKLMNOPQRSTUVWXYZ_$'')"

definition is_ident_char :: "char \<Rightarrow> bool" where
  "is_ident_char c = (is_ident_start c \<or> is_digit c)"

text \<open>
  After a \<open>{\<close> or a comma: spaces, an identifier, spaces and a colon, as the pattern
  \<open>/([{,]\s*)([a-zA-Z_$][a-zA-Z0-9_$]*)\s*:/g\<close> asks; the result is the spaces, the
  identifier and the text after the colon.
\<close>

definition match_key :: "string \<Rightarrow> (string \<times> string \<times> string) option" where
  "match_key cs =
     (case dropWhile is_space cs of
        [] \<Rightarrow> None
      | c # t \<Rightarrow>
          if is_ident_start c then
            (case dropWhile is_space (dropWhile is_ident_char t) of
               [] \<Rightarrow> None
             | d # rest \<Rightarrow>
                 if d = CHR '':''
                 then Some (takeWhile is_space cs, c # takeWhile is_ident_char t, rest)
                 else None)
          else None)"

lemma match_key_shorter: "match_key cs = Some (ws, ident, rest) \<Longrightarrow> length rest < Suc (length cs)"
proof -
  assume m: "match_key cs = Some (ws, ident, rest)"
  then obtain c t where ct: "dropWhile is_space cs = c # t"
    by (auto simp: match_key_def split: list.splits)
  with m obtain d where d: "dropWhile is_space (dropWhile is_ident_char t) = d # rest"
    by (auto simp: match_key_def split: list.splits if_splits)
  have "length (d # rest) \<le> length (dropWhile is_ident_char t)"
    using d length_dropWhile_le [of is_space "dropWhile is_ident_char t"] by simp
  also have "\<dots> \<le> length t" by (rule length_dropWhile_le)
  also have "\<dots> \<le> length (c # t)" by simp
  also have "\<dots> \<le> length cs" using ct length_dropWhile_le [of is_space cs] by simp
  finally show ?thesis by simp
qed

function quote_keys :: "string \<Rightarrow> string" where
  "quote_keys [] = []"
| "quote_keys (c # cs) =
     (if c = CHR ''{'' \<or> c = CHR '','' then
        (case match_key cs of
           Some (ws, ident, rest) \<Rightarrow>
             c # ws @ [CHR 0x22] @ ident @ [CHR 0x22, CHR '':''] @ quote_keys rest
         | None \<Rightarrow> c # quote_keys cs)
      else c # quote_keys cs)"
  by pat_completeness auto
termination
  by (relation "measure length") (auto dest: match_key_shorter)

definition repairMalformedJson :: "string \<Rightarrow> string option" where
  "repairMalformedJson jsonString =
     (let repaired = js_trim jsonString;
          openBraces = count_char (CHR ''{'') repaired;
          closeBraces = count_char (CHR ''}'') repaired;
          openBrackets = count_char (CHR ''['') repaired;
          closeBrackets = count_char (CHR '']'') repaired;
          repaired1 = repaired @ replicate (openBrackets - closeBrackets) (CHR '']'');
          repaired2 = repaired1 @ replicate (openBraces - closeBraces) (CHR ''}'');
          repaired3 = strip_trailing_commas repaired2;
          repaired4 = quote_keys repaired3
      in case JSON_parse repaired4 of None \<Rightarrow> None | Some v \<Rightarrow> Some repaired4)"

subsection \<open>recoverData\<close>

datatype rerr = JSONParseError | JSONRepairFailed | NoRecoveryStrategy string | RecoveryError exn

record recovery_result =
  success :: bool
  data :: jsval
  strategy_used :: string
  rerrors :: "rerr list"

text \<open>
  The part of \<open>recoverData\<close> after parsing. The \<open>try\<close> around \<open>strategy.repair\<close> has no
  branch here: on a parsed value neither repair function raises.
\<close>

definition validate_parsed :: "string \<Rightarrow> string \<Rightarrow> recovery_result \<Rightarrow> jsval \<Rightarrow> recovery_result" where
  "validate_parsed stamp dataType result parsedData =
     (case recoveryStrategies stamp dataType of
        None \<Rightarrow> result\<lparr>rerrors := rerrors result @ [NoRecoveryStrategy dataType],
                       data := parsedData, success := True\<rparr>
      | Some st \<Rightarrow>
          if s_validate st parsedData
          then result\<lparr>strategy_used := ''validation-passed'', data := parsedData, success := True\<rparr>
          else result\<lparr>data := s_repair st parsedData, strategy_used := ''data-repair'',
                      success := True\<rparr>)"

definition fallback_result :: "string \<Rightarrow> string \<Rightarrow> rerr list \<Rightarrow> recovery_result" where
  "fallback_result stamp dataType es =
     \<lparr>success = True, data = getFallbackData stamp dataType, strategy_used = ''fallback'', rerrors = es\<rparr>"

definition recoverData_try :: "storage \<Rightarrow> clock \<Rightarrow> string \<Rightarrow> string \<Rightarrow> exn + recovery_result" where
  "recoverData_try ls clk key dataType =
     (let result = \<lparr>success = False, data = JNull, strategy_used = ''none'', rerrors = []\<rparr> in
      case Storage_getItem ls key of
        Inl e \<Rightarrow> Inl e
      | Inr None \<Rightarrow> Inr (fallback_result (now_iso clk) dataType [])
      | Inr (Some rawData) \<Rightarrow>
          if rawData = [] then Inr (fallback_result (now_iso clk) dataType [])
          else
            (case JSON_parse rawData of
               Some parsedData \<Rightarrow> Inr (validate_parsed (now_iso clk) dataType result parsedData)
             | None \<Rightarrow>
                 (case repairMalformedJson rawData of
                    None \<Rightarrow> Inr (fallback_result (now_iso clk) dataType [JSONParseError])
                  | Some repairedJson \<Rightarrow>
                      if repairedJson = []
                      then Inr (fallback_result (now_iso clk) dataType [JSONParseError])
                      else
                        (case JSON_parse repairedJson of
                           None \<Rightarrow> Inr (fallback_result (now_iso clk) dataType
                                           [JSONParseError, JSONRepairFailed])
                         | Some parsedData \<Rightarrow>
                             Inr (validate_parsed (now_iso clk) dataType
                                    (result\<lparr>rerrors := [JSONParseError], strategy_used := ''json-repair''\<rparr>)
                                    parsedData)))))"

definition recoverData :: "storage \<Rightarrow> clock \<Rightarrow> string \<Rightarrow> string \<Rightarrow> recovery_result" where
  "recoverData ls clk key dataType =
     (case recoverData_try ls clk key dataType of
        Inr result \<Rightarrow> result
      | Inl e \<Rightarrow> fallback_result (now_iso clk) dataType [RecoveryError e])"

subsection \<open>Backups\<close>

definition starts_with :: "string \<Rightarrow> string \<Rightarrow> bool" where
  "starts_with p k = (take (length p) k = p)"

text \<open>
  \<open>a.split(sep)[1]\<close> for a separator that is not empty: the text between the first
  and the second occurrence of the separator; \<open>None\<close> (\<open>undefined\<close>) when there is no
  occurrence.
\<close>

fun after_first :: "string \<Rightarrow> string \<Rightarrow> string option" where
  "after_first sep [] = None"
| "after_first sep (c # cs) =
     (if starts_with sep (c # cs) then Some (drop (length sep) (c # cs)) else after_first sep cs)"

fun before_first :: "string \<Rightarrow> string \<Rightarrow> string" where
  "before_first sep [] = []"
| "before_first sep (c # cs) =
     (if starts_with sep (c # cs) then [] else c # before_first sep cs)"

definition split_second :: "string \<Rightarrow> string \<Rightarrow> string option" where
  "split_second sep a = (case after_first sep a of None \<Rightarrow> None | Some r \<Rightarrow> Some (before_first sep r))"

definition is_hex_digit :: "char \<Rightarrow> bool" where
  "is_hex_digit c = (c \<in> set ''0123456789abcdefABCDEF'')"

definition hex_val :: "char \<Rightarrow> nat" where
  "hex_val c =
     (if is_digit c then of_char c - 48
      else if c \<in> set ''abcdef'' then of_char c - 87
      else of_char c - 55)"

text \<open>
  \<open>parseInt\<close> with no radix: leading spaces, a sign, then a \<open>0x\<close> prefix and hexadecimal
  digits, or decimal digits; what follows the digits is ignored. \<open>None\<close> is \<open>NaN\<close>.
\<close>

definition parseInt :: "string \<Rightarrow> int option" where
  "parseInt s =
     (let r0 = dropWhile is_space s;
          (neg, r) = (case r0 of c # t \<Rightarrow> if c = CHR ''-'' then (True, t)
                                          else if c = CHR ''+'' then (False, t) else (False, r0)
                      | [] \<Rightarrow> (False, r0));
          hex = (take 2 r = ''0x'' \<or> take 2 r = ''0X'');
          ds = (if hex then takeWhile is_hex_digit (drop 2 r) else takeWhile is_digit r);
          v = (if hex then foldl (\<lambda>a c. 16 * a + hex_val c) 0 ds else digits_val ds)
      in if ds = [] then None else Some (if neg then - int v else int v))"

text \<open>The timestamp the comparator reads from a backup key.\<close>

definition backup_timestamp :: "string \<Rightarrow> int option" where
  "backup_timestamp k =
     (case split_second ''_backup_'' k of None \<Rightarrow> None | Some t \<Rightarrow> parseInt t)"

text \<open>The comparator \<open>timestampB - timestampA\<close>; a \<open>NaN\<close> result counts as \<open>0\<close>.\<close>

definition backup_compare :: "string \<Rightarrow> string \<Rightarrow> int" where
  "backup_compare a b =
     (case backup_timestamp a of
        None \<Rightarrow> 0
      | Some timestampA \<Rightarrow>
          (case backup_timestamp b of None \<Rightarrow> 0 | Some timestampB \<Rightarrow> timestampB - timestampA))"

text \<open>\<open>Array.prototype.sort\<close> with a comparator: a stable sort.\<close>

fun insert_by :: "('a \<Rightarrow> 'a \<Rightarrow> int) \<Rightarrow> 'a \<Rightarrow> 'a list \<Rightarrow> 'a list" where
  "insert_by cmp x [] = [x]"
| "insert_by cmp x (y # ys) = (if cmp x y \<le> 0 then x # y # ys else y # insert_by cmp x ys)"

definition js_sort :: "('a \<Rightarrow> 'a \<Rightarrow> int) \<Rightarrow> 'a list \<Rightarrow> 'a list" where
  "js_sort cmp xs = foldr (insert_by cmp) xs []"

definition backup_keys_of :: "string \<Rightarrow> string list \<Rightarrow> string list" where
  "backup_keys_of originalKey ks =
     filter (\<lambda>k. k \<noteq> [] \<and> starts_with (originalKey @ ''_backup_'') k) ks"

text \<open>The removal loop of \<open>cleanupOldBackups\<close>; a failing \<open>removeItem\<close> ends it.\<close>

fun remove_backups :: "string list \<Rightarrow> storage \<Rightarrow> string set \<Rightarrow> storage \<times> string set" where
  "remove_backups [] ls bk = (ls, bk)"
| "remove_backups (k # ks) ls bk =
     (case Storage_removeItem ls k of
        Inl e \<Rightarrow> (ls, bk)
      | Inr ls' \<Rightarrow> remove_backups ks ls' (bk - {k}))"

definition cleanupOldBackups :: "storage \<Rightarrow> string set \<Rightarrow> string \<Rightarrow> storage \<times> string set" where
  "cleanupOldBackups ls bk originalKey =
     (case Storage_keys ls of
        Inl e \<Rightarrow> (ls, bk)
      | Inr ks \<Rightarrow>
          remove_backups (drop 5 (js_sort backup_compare (backup_keys_of originalKey ks))) ls bk)"

definition createBackup :: "storage \<Rightarrow> string set \<Rightarrow> clock \<Rightarrow> string \<Rightarrow> jsval \<Rightarrow> storage \<times> string set" where
  "createBackup ls bk clk key d =
     (let backupKey = key @ ''_backup_'' @ show_nat (now_ms clk);
          backupData = JObj [(''originalKey'', JStr key), (''data'', d),
                             (''timestamp'', JStr (now_iso clk)), (''version'', JStr ''1.0'')]
      in case Storage_setItem ls backupKey (stringify_text backupData) of
           Inl e \<Rightarrow> (ls, bk)
         | Inr ls' \<Rightarrow> cleanupOldBackups ls' (insert backupKey bk) key)"

datatype restore_result = Restored jsval jsval | NotRestored string

definition restoreFromBackup :: "storage \<Rightarrow> string \<Rightarrow> string \<Rightarrow> restore_result \<times> storage" where
  "restoreFromBackup ls syntaxMessage originalKey =
     (case Storage_keys ls of
        Inl e \<Rightarrow> (NotRestored (exn_message e), ls)
      | Inr ks \<Rightarrow>
          (case js_sort backup_compare (backup_keys_of originalKey ks) of
             [] \<Rightarrow> (NotRestored ''No backups found'', ls)
           | mostRecentBackup # older \<Rightarrow>
               (case Storage_getItem ls mostRecentBackup of
                  Inl e \<Rightarrow> (NotRestored (exn_message e), ls)
                | Inr stored \<Rightarrow>
                    (case JSON_parse (case stored of None \<Rightarrow> ''null'' | Some t \<Rightarrow> t) of
                       None \<Rightarrow> (NotRestored syntaxMessage, ls)
                     | Some backupData \<Rightarrow>
                         if nullish backupData then (NotRestored ''TypeError'', ls)
                         else
                           (case Storage_setItem ls originalKey
                                   (stringify_text (get_prop backupData ''data'')) of
                              Inl e \<Rightarrow> (NotRestored (exn_message e), ls)
                            | Inr ls' \<Rightarrow>
                                (Restored (get_prop backupData ''data'')
                                          (get_prop backupData ''timestamp''), ls'))))))"

section \<open>Cart items (models)\<close>

record cart_item =
  productId :: number
  quantity :: number
  addedAt :: jsval

text \<open>\<open>new CartItem(productId, quantity = 1)\<close> with its \<open>validate\<close>.\<close>

definition CartItem_new :: "jsval \<Rightarrow> jsval \<Rightarrow> string \<Rightarrow> error + cart_item" where
  "CartItem_new pid qty stamp =
     (case pid of
        JNum p \<Rightarrow>
          if p = 0 then Inl ItemProductIdInvalid
          else (case (if qty = JUndefined then JNum 1 else qty) of
                  JNum q \<Rightarrow>
                    if q < 0 \<or> \<not> Number_isInteger q then Inl QuantityMustBeNonNegativeInteger
                    else Inr \<lparr>productId = p, quantity = q, addedAt = JStr stamp\<rparr>
                | _ \<Rightarrow> Inl QuantityMustBeNonNegativeInteger)
      | _ \<Rightarrow> Inl ItemProductIdInvalid)"

definition CartItem_validate :: "cart_item \<Rightarrow> error option" where
  "CartItem_validate it =
     (if productId it = 0 then Some ItemProductIdInvalid
      else if quantity it < 0 \<or> \<not> Number_isInteger (quantity it)
      then Some QuantityMustBeNonNegativeInteger
      else None)"

definition CartItem_updateQuantity :: "cart_item \<Rightarrow> number \<Rightarrow> error + cart_item" where
  "CartItem_updateQuantity it newQuantity =
     (if newQuantity < 0 \<or> \<not> Number_isInteger newQuantity then Inl QuantityMustBeNonNegativeInteger
      else Inr (it\<lparr>quantity := newQuantity\<rparr>))"

definition CartItem_fromObject :: "jsval \<Rightarrow> string \<Rightarrow> error + cart_item" where
  "CartItem_fromObject d stamp =
     (case CartItem_new (get_prop d ''productId'') (get_prop d ''quantity'') stamp of
        Inl e \<Rightarrow> Inl e
      | Inr it \<Rightarrow>
          Inr (if truthy (get_prop d ''addedAt'') then it\<lparr>addedAt := get_prop d ''addedAt''\<rparr> else it))"

section \<open>The cart module (cart.js)\<close>

datatype event =
    ItemAdded number number
  | ItemRemoved number
  | QuantityUpdated number number
  | CartCleared
  | StorageQuotaExceeded string
  | StorageAccessDenied string
  | StorageError string

text \<open>
  What the module finds around it: the loaded catalog, which optional globals are defined
  (\<open>typeof inputValidator !== 'undefined'\<close> and the like), what the feature detection of
  \<open>gracefulDegradation\<close> found at startup, and the message the runtime gives a
  \<open>SyntaxError\<close>.
\<close>

record config =
  products :: "product list"
  inputValidator_defined :: bool
  dataRecovery_defined :: bool
  gracefulDegradation_defined :: bool
  localStorage_supported :: bool
  sessionStorage_supported :: bool
  errorHandler_defined :: bool
  syntaxErrorMessage :: string

text \<open>
  The state: the fields of the module (\<open>items\<close> is the \<open>Map\<close>, in insertion order), the
  stores it writes, the backup keys \<open>dataRecovery\<close> remembers, and two logs: every
  notification handed to the listeners and every report to the error handler.
\<close>

record cart_state =
  items :: "(number \<times> cart_item) list"
  sessionOnly :: bool
  notified :: "event list"
  localStorage :: storage
  sessionStorage :: storage
  memoryStorage :: "(string \<times> string) list"
  backupKeys :: "string set"
  reported :: "(exn \<times> string) list"

definition storageKey :: string where
  "storageKey = ''shopping-cart-items''"

definition timestampKey :: string where
  "timestampKey = ''shopping-cart-timestamp''"

definition notifyListeners :: "event \<Rightarrow> cart_state \<Rightarrow> cart_state" where
  "notifyListeners ev s = s\<lparr>notified := notified s @ [ev]\<rparr>"

fun js_includes :: "string \<Rightarrow> string \<Rightarrow> bool" where
  "js_includes sub [] = (sub = [])"
| "js_includes sub (c # cs) = (starts_with sub (c # cs) \<or> js_includes sub cs)"

definition handleStorageError :: "exn \<Rightarrow> cart_state \<Rightarrow> cart_state" where
  "handleStorageError e s =
     (if exn_name e = ''QuotaExceededError'' \<or> js_includes ''quota'' (exn_message e)
      then notifyListeners (StorageQuotaExceeded (exn_message e)) (s\<lparr>sessionOnly := True\<rparr>)
      else if exn_name e = ''SecurityError'' \<or> js_includes ''access'' (exn_message e)
      then notifyListeners (StorageAccessDenied (exn_message e)) (s\<lparr>sessionOnly := True\<rparr>)
      else notifyListeners (StorageError (exn_message e)) (s\<lparr>sessionOnly := True\<rparr>))"

definition reportStorageError :: "config \<Rightarrow> exn \<Rightarrow> string \<Rightarrow> cart_state \<Rightarrow> cart_state" where
  "reportStorageError cfg e ctx s =
     (if errorHandler_defined cfg then s\<lparr>reported := reported s @ [(e, ctx)]\<rparr> else s)"

text \<open>
  \<open>storage.setItem\<close> in \<open>saveToStorage\<close>: \<open>localStorage\<close>, or the fallback of
  \<open>gracefulDegradation\<close> (session storage, else a table in memory) when it found
  \<open>localStorage\<close> unsupported.
\<close>

definition writeItem :: "config \<Rightarrow> string \<Rightarrow> string \<Rightarrow> cart_state \<Rightarrow> exn + cart_state" where
  "writeItem cfg k v s =
     (if gracefulDegradation_defined cfg \<and> \<not> localStorage_supported cfg then
        (if sessionStorage_supported cfg then
           (case Storage_setItem (sessionStorage s) k v of
              Inl e \<Rightarrow> Inl e
            | Inr st \<Rightarrow> Inr (s\<lparr>sessionStorage := st\<rparr>))
         else Inr (s\<lparr>memoryStorage := AList.update k v (memoryStorage s)\<rparr>))
      else
        (case Storage_setItem (localStorage s) k v of
           Inl e \<Rightarrow> Inl e
         | Inr st \<Rightarrow> Inr (s\<lparr>localStorage := st\<rparr>)))"

definition cartData_of :: "clock \<Rightarrow> cart_state \<Rightarrow> jsval" where
  "cartData_of clk s =
     JObj [(''items'',
            JArr (map (\<lambda>entry. JObj [(''productId'', JNum (fst entry)),
                                      (''quantity'', JNum (quantity (snd entry))),
                                      (''addedAt'', addedAt (snd entry))]) (items s))),
           (''timestamp'', JStr (now_iso clk))]"

text \<open>The backup step of \<open>saveToStorage\<close>; a stored text that does not parse is only warned about.\<close>

definition backupExisting :: "config \<Rightarrow> clock \<Rightarrow> cart_state \<Rightarrow> exn + cart_state" where
  "backupExisting cfg clk s =
     (if dataRecovery_defined cfg then
        (case Storage_getItem (localStorage s) storageKey of
           Inl e \<Rightarrow> Inl e
         | Inr None \<Rightarrow> Inr s
         | Inr (Some existingData) \<Rightarrow>
             if existingData = [] then Inr s
             else (case JSON_parse existingData of
                     None \<Rightarrow> Inr s
                   | Some existingCartData \<Rightarrow>
                       (let r = createBackup (localStorage s) (backupKeys s) clk storageKey existingCartData
                        in Inr (s\<lparr>localStorage := fst r, backupKeys := snd r\<rparr>))))
      else Inr s)"

text \<open>The \<open>try\<close> block of \<open>saveToStorage\<close>: the error comes with the state reached.\<close>

definition saveToStorage_try :: "config \<Rightarrow> clock \<Rightarrow> cart_state \<Rightarrow> (exn \<times> cart_state) + cart_state" where
  "saveToStorage_try cfg clk s =
     (case backupExisting cfg clk s of
        Inl e \<Rightarrow> Inl (e, s)
      | Inr s1 \<Rightarrow>
          (case writeItem cfg storageKey (stringify_text (cartData_of clk s)) s1 of
             Inl e \<Rightarrow> Inl (e, s1)
           | Inr s2 \<Rightarrow>
               (case writeItem cfg timestampKey (now_iso clk) s2 of
                  Inl e \<Rightarrow> Inl (e, s2)
                | Inr s3 \<Rightarrow> Inr s3)))"

definition saveToStorage :: "config \<Rightarrow> clock \<Rightarrow> cart_state \<Rightarrow> cart_state" where
  "saveToStorage cfg clk s =
     (if sessionOnly s then s
      else case saveToStorage_try cfg clk s of
             Inr s' \<Rightarrow> s'
           | Inl (e, s1) \<Rightarrow> reportStorageError cfg e ''cart-save'' (handleStorageError e s1))"

text \<open>
  The checks that open \<open>addItem\<close> and \<open>updateQuantity\<close> (the same text in both): with
  the validator, the sanitized values; without it, the inline tests.
\<close>

definition checkArguments :: "config \<Rightarrow> jsval \<Rightarrow> jsval \<Rightarrow> error + (number \<times> number)" where
  "checkArguments cfg pid qty =
     (if inputValidator_defined cfg then
        (let productIdResult = validateProductId (products cfg) pid in
         if \<not> isValid productIdResult then Inl (InvalidProductId (errors productIdResult))
         else
           (let quantityResult = validateQuantity (products cfg) qty in
            if \<not> isValid quantityResult then Inl (InvalidQuantity (errors quantityResult))
            else (case sanitizedValue productIdResult of
                    None \<Rightarrow> Inl ProductIdMustBeNumber
                  | Some p \<Rightarrow> (case sanitizedValue quantityResult of
                                 None \<Rightarrow> Inl QuantityMustBeNonNegativeInteger
                               | Some q \<Rightarrow> Inr (p, q)))))
      else
        (case pid of
           JNum p \<Rightarrow>
             if p \<le> 0 then Inl ProductIdMustBePositive
             else (case qty of
                     JNum q \<Rightarrow>
                       if q < 0 \<or> \<not> Number_isInteger q then Inl QuantityMustBeNonNegativeInteger
                       else Inr (p, q)
                   | _ \<Rightarrow> Inl QuantityMustBeNonNegativeInteger)
         | _ \<Rightarrow> Inl ProductIdMustBePositive))"

text \<open>The \<open>try\<close> block of \<open>addItem\<close>.\<close>

definition addItem_try :: "config \<Rightarrow> clock \<Rightarrow> number \<Rightarrow> number \<Rightarrow> cart_state \<Rightarrow> error + cart_state" where
  "addItem_try cfg clk pid qty s =
     (case map_of (items s) pid of
        Some existingItem \<Rightarrow>
          (let newQuantity = quantity existingItem + qty;
               totalQuantityResult = validateQuantity (products cfg) (JNum newQuantity)
           in if inputValidator_defined cfg \<and> \<not> isValid totalQuantityResult
              then Inl (TotalQuantityInvalid (errors totalQuantityResult))
              else (case CartItem_updateQuantity existingItem newQuantity of
                      Inl e \<Rightarrow> Inl e
                    | Inr it \<Rightarrow>
                        Inr (saveToStorage cfg clk
                              (notifyListeners (ItemAdded pid qty)
                                (s\<lparr>items := AList.update pid it (items s)\<rparr>)))))
      | None \<Rightarrow>
          (case CartItem_new (JNum pid) (JNum qty) (now_iso clk) of
             Inl e \<Rightarrow> Inl e
           | Inr cartItem \<Rightarrow>
               Inr (saveToStorage cfg clk
                     (notifyListeners (ItemAdded pid qty)
                       (s\<lparr>items := AList.update pid cartItem (items s)\<rparr>)))))"

definition addItem :: "config \<Rightarrow> clock \<Rightarrow> jsval \<Rightarrow> jsval \<Rightarrow> cart_state \<Rightarrow> error + cart_state" where
  "addItem cfg clk pid qty s =
     (case checkArguments cfg pid (if qty = JUndefined then JNum 1 else qty) of
        Inl e \<Rightarrow> Inl e
      | Inr (p, q) \<Rightarrow>
          if q = 0 then Inr s
          else (case findProduct (products cfg) p of
                  None \<Rightarrow> Inl (ProductNotFound p)
                | Some product \<Rightarrow>
                    (case addItem_try cfg clk p q s of
                       Inl e \<Rightarrow> Inl (FailedToAddItem e)
                     | Inr s' \<Rightarrow> Inr s')))"

definition removeItem :: "config \<Rightarrow> clock \<Rightarrow> jsval \<Rightarrow> cart_state \<Rightarrow> error + cart_state" where
  "removeItem cfg clk pid s =
     (case pid of
        JNum p \<Rightarrow>
          if p \<le> 0 then Inl ProductIdMustBePositive
          else if map_of (items s) p \<noteq> None
          then Inr (saveToStorage cfg clk
                     (notifyListeners (ItemRemoved p) (s\<lparr>items := AList.delete p (items s)\<rparr>)))
          else Inr s
      | _ \<Rightarrow> Inl ProductIdMustBePositive)"

definition updateQuantity :: "config \<Rightarrow> clock \<Rightarrow> jsval \<Rightarrow> jsval \<Rightarrow> cart_state \<Rightarrow> error + cart_state" where
  "updateQuantity cfg clk pid qty s =
     (case checkArguments cfg pid qty of
        Inl e \<Rightarrow> Inl e
      | Inr (p, q) \<Rightarrow>
          (case map_of (items s) p of
             None \<Rightarrow> Inl (NotFoundInCart p)
           | Some cartItem \<Rightarrow>
               if q = 0 then removeItem cfg clk (JNum p) s
               else (case CartItem_updateQuantity cartItem q of
                       Inl e \<Rightarrow> Inl (FailedToUpdateQuantity e)
                     | Inr it \<Rightarrow>
                         Inr (saveToStorage cfg clk
                               (notifyListeners (QuantityUpdated p q)
                                 (s\<lparr>items := AList.update p it (items s)\<rparr>))))))"

definition clearCart :: "config \<Rightarrow> clock \<Rightarrow> cart_state \<Rightarrow> cart_state" where
  "clearCart cfg clk s =
     (if length (items s) > 0
      then saveToStorage cfg clk (notifyListeners CartCleared (s\<lparr>items := []\<rparr>))
      else s\<lparr>items := []\<rparr>)"

definition getCartItems :: "cart_state \<Rightarrow> cart_item list" where
  "getCartItems s = map snd (items s)"

definition getCartCount :: "cart_state \<Rightarrow> number" where
  "getCartCount s = foldl (\<lambda>count cartItem. count + quantity cartItem) 0 (getCartItems s)"

definition getCartItem :: "cart_state \<Rightarrow> jsval \<Rightarrow> cart_item option" where
  "getCartItem s pid = (case pid of JNum p \<Rightarrow> map_of (items s) p | _ \<Rightarrow> None)"

definition isEmpty :: "cart_state \<Rightarrow> bool" where
  "isEmpty s = (length (items s) = 0)"

subsection \<open>Loading\<close>

text \<open>
  One pass of a loading loop over a stored item; \<open>None\<close> is an item passed over
  (\<open>skippedCount++\<close>), whether by \<open>continue\<close> or by the \<open>catch\<close> of the loop body. The
  flag \<open>typed\<close> is the test of the older loading path that the item is an object with
  numeric fields.
\<close>

definition load_item :: "config \<Rightarrow> string \<Rightarrow> bool \<Rightarrow> jsval \<Rightarrow> cart_item option" where
  "load_item cfg stamp typed itemData =
     (if nullish itemData then None
      else if typed \<and> (\<not> truthy itemData \<or> \<not> typeof_number (get_prop itemData ''productId'')
                        \<or> \<not> typeof_number (get_prop itemData ''quantity''))
      then None
      else if inputValidator_defined cfg \<and>
              (\<not> isValid (validateProductId (products cfg) (get_prop itemData ''productId''))
               \<or> \<not> isValid (validateQuantity (products cfg) (get_prop itemData ''quantity'')))
      then None
      else (case getProductById (products cfg) (get_prop itemData ''productId'') of
              Inl e \<Rightarrow> None
            | Inr None \<Rightarrow> None
            | Inr (Some product) \<Rightarrow>
                (case CartItem_fromObject itemData stamp of Inl e \<Rightarrow> None | Inr it \<Rightarrow> Some it)))"

fun load_items :: "config \<Rightarrow> string \<Rightarrow> bool \<Rightarrow> jsval list \<Rightarrow> (number \<times> cart_item) list \<Rightarrow> nat
    \<Rightarrow> (number \<times> cart_item) list \<times> nat" where
  "load_items cfg stamp typed [] its skippedCount = (its, skippedCount)"
| "load_items cfg stamp typed (itemData # rest) its skippedCount =
     (case load_item cfg stamp typed itemData of
        None \<Rightarrow> load_items cfg stamp typed rest its (Suc skippedCount)
      | Some cartItem \<Rightarrow>
          load_items cfg stamp typed rest (AList.update (productId cartItem) cartItem its) skippedCount)"

definition load_from :: "config \<Rightarrow> clock \<Rightarrow> bool \<Rightarrow> jsval list \<Rightarrow> cart_state \<Rightarrow> cart_state" where
  "load_from cfg clk typed ds s =
     (let r = load_items cfg (now_iso clk) typed ds [] 0;
          s1 = s\<lparr>items := fst r\<rparr>
      in if snd r > 0 then saveToStorage cfg clk s1 else s1)"

text \<open>The older loading path, after the recovery path.\<close>

definition load_plain :: "config \<Rightarrow> clock \<Rightarrow> cart_state \<Rightarrow> (exn \<times> cart_state) + cart_state" where
  "load_plain cfg clk s =
     (case Storage_getItem (localStorage s) storageKey of
        Inl e \<Rightarrow> Inl (e, s)
      | Inr None \<Rightarrow> Inr s
      | Inr (Some serializedData) \<Rightarrow>
          if serializedData = [] then Inr s
          else (case JSON_parse serializedData of
                  None \<Rightarrow> Inl (\<lparr>exn_name = ''SyntaxError'', exn_message = syntaxErrorMessage cfg\<rparr>, s)
                | Some cartData \<Rightarrow>
                    (if \<not> truthy cartData then
                       Inl (\<lparr>exn_name = ''Error'', exn_message = ''Invalid cart data structure''\<rparr>, s)
                     else case get_prop cartData ''items'' of
                            JArr ds \<Rightarrow> Inr (load_from cfg clk True ds s)
                          | _ \<Rightarrow> Inl (\<lparr>exn_name = ''Error'',
                                         exn_message = ''Invalid cart data structure''\<rparr>, s))))"

text \<open>
  The \<open>try\<close> block of \<open>loadFromStorage\<close>. In the recovery path a recovered value whose
  \<open>items\<close> is no array makes the \<open>for\<close> loop raise, after the map was cleared.
\<close>

definition loadFromStorage_try :: "config \<Rightarrow> clock \<Rightarrow> cart_state \<Rightarrow> (exn \<times> cart_state) + cart_state" where
  "loadFromStorage_try cfg clk s =
     (if dataRecovery_defined cfg then
        (let recoveryResult = recoverData (localStorage s) clk storageKey ''cart'' in
         if success recoveryResult \<and> truthy (data recoveryResult) then
           (case get_prop (data recoveryResult) ''items'' of
              JArr ds \<Rightarrow> Inr (load_from cfg clk False ds s)
            | _ \<Rightarrow> Inl (\<lparr>exn_name = ''TypeError'', exn_message = ''cartData.items is not iterable''\<rparr>,
                         s\<lparr>items := []\<rparr>))
         else load_plain cfg clk s)
      else load_plain cfg clk s)"

definition clearStorageData :: "cart_state \<Rightarrow> cart_state" where
  "clearStorageData s =
     (case Storage_removeItem (localStorage s) storageKey of
        Inl e \<Rightarrow> s
      | Inr ls1 \<Rightarrow>
          (case Storage_removeItem ls1 timestampKey of
             Inl e \<Rightarrow> s\<lparr>localStorage := ls1\<rparr>
           | Inr ls2 \<Rightarrow> s\<lparr>localStorage := ls2\<rparr>))"

text \<open>
  \<open>loadFromStorage\<close>. Its \<open>catch\<close> calls \<open>loadFromStorage\<close> again after a backup was
  restored, so the function is partial: \<open>None\<close> is a call that never returns.
\<close>

partial_function (option) loadFromStorage :: "config \<Rightarrow> clock \<Rightarrow> cart_state \<Rightarrow> cart_state option" where
  "loadFromStorage cfg clk s =
     (case loadFromStorage_try cfg clk s of
        Inr s' \<Rightarrow> Some s'
      | Inl es \<Rightarrow>
          (let s2 = handleStorageError (fst es) (snd es);
               restoreResult = restoreFromBackup (localStorage s2) (syntaxErrorMessage cfg) storageKey
           in if dataRecovery_defined cfg then
                (case fst restoreResult of
                   Restored d t \<Rightarrow> loadFromStorage cfg clk (s2\<lparr>localStorage := snd restoreResult\<rparr>)
                 | NotRestored m \<Rightarrow>
                     Some (reportStorageError cfg (fst es) ''cart-load''
                            (clearStorageData (s2\<lparr>localStorage := snd restoreResult\<rparr>))))
              else Some (reportStorageError cfg (fst es) ''cart-load'' (clearStorageData s2))))"

definition clearStorage :: "cart_state \<Rightarrow> cart_state" where
  "clearStorage s =
     (case Storage_removeItem (localStorage s) storageKey of
        Inl e \<Rightarrow> s
      | Inr ls1 \<Rightarrow>
          (case Storage_removeItem ls1 timestampKey of
             Inl e \<Rightarrow> s\<lparr>localStorage := ls1\<rparr>
           | Inr ls2 \<Rightarrow> s\<lparr>localStorage := ls2\<rparr>))"

definition isStorageAvailable :: "storage \<Rightarrow> bool \<times> storage" where
  "isStorageAvailable ls =
     (case Storage_setItem ls ''__storage_test__'' ''test'' of
        Inl e \<Rightarrow> (False, ls)
      | Inr ls1 \<Rightarrow>
          (case Storage_removeItem ls1 ''__storage_test__'' of
             Inl e \<Rightarrow> (False, ls1)
           | Inr ls2 \<Rightarrow> (True, ls2)))"

record storage_info =
  hasStoredData :: bool
  lastSaved :: "string option"
  info_sessionOnly :: bool
  dataSize :: nat
  storageAvailable :: bool
  info_error :: "string option"

definition getStorageInfo :: "cart_state \<Rightarrow> storage_info \<times> cart_state" where
  "getStorageInfo s =
     (case Storage_getItem (localStorage s) storageKey of
        Inl e \<Rightarrow> (\<lparr>hasStoredData = False, lastSaved = None, info_sessionOnly = True, dataSize = 0,
                    storageAvailable = False, info_error = Some (exn_message e)\<rparr>, s)
      | Inr stored \<Rightarrow>
          (case Storage_getItem (localStorage s) timestampKey of
             Inl e \<Rightarrow> (\<lparr>hasStoredData = False, lastSaved = None, info_sessionOnly = True, dataSize = 0,
                         storageAvailable = False, info_error = Some (exn_message e)\<rparr>, s)
           | Inr timestamp \<Rightarrow>
               (let avail = isStorageAvailable (localStorage s) in
                (\<lparr>hasStoredData = (stored \<noteq> None),
                  lastSaved = (case timestamp of None \<Rightarrow> None | Some t \<Rightarrow> if t = [] then None else Some t),
                  info_sessionOnly = sessionOnly s,
                  dataSize = (case stored of None \<Rightarrow> 0 | Some d \<Rightarrow> length d),
                  storageAvailable = fst avail,
                  info_error = None\<rparr>,
                 s\<lparr>localStorage := snd avail\<rparr>))))"

datatype issue = ProductNoLongerExists number | InvalidCartItem number error

fun validate_loop :: "product list \<Rightarrow> (number \<times> cart_item) list
    \<Rightarrow> (number \<times> cart_item) list \<times> issue list" where
  "validate_loop ps [] = ([], [])"
| "validate_loop ps (entry # rest) =
     (let r = validate_loop ps rest in
      case CartItem_validate (snd entry) of
        Some e \<Rightarrow> (fst r, InvalidCartItem (fst entry) e # snd r)
      | None \<Rightarrow>
          (case findProduct ps (fst entry) of
             None \<Rightarrow> (fst r, ProductNoLongerExists (fst entry) # snd r)
           | Some product \<Rightarrow> (entry # fst r, snd r)))"

record validation_report =
  report_isValid :: bool
  issues :: "issue list"
  fixedItemCount :: nat

definition validateCart :: "config \<Rightarrow> cart_state \<Rightarrow> validation_report \<times> cart_state" where
  "validateCart cfg s =
     (let r = validate_loop (products cfg) (items s) in
      (\<lparr>report_isValid = (snd r = []), issues = snd r, fixedItemCount = length (fst r)\<rparr>,
       s\<lparr>items := fst r\<rparr>))"

text \<open>The state a new \<open>CartModule\<close> starts from, before its constructor loads the stored cart.\<close>

definition new_state :: "storage \<Rightarrow> storage \<Rightarrow> (string \<times> string) list \<Rightarrow> string set \<Rightarrow> cart_state" where
  "new_state ls ss mem bk =
     \<lparr>items = [], sessionOnly = False, notified = [], localStorage = ls, sessionStorage = ss,
      memoryStorage = mem, backupKeys = bk, reported = []\<rparr>"

subsection \<open>Sessions\<close>

text \<open>
  A session is a sequence of calls on one module, each at its own clock reading. Between
  calls the environment may change the stores (another tab writes, a fault appears or
  goes away). A call that raises leaves the state as it was: every \<open>throw\<close> of the
  mutating methods comes before their first assignment.
\<close>

datatype call =
    AddItem jsval jsval
  | RemoveItem jsval
  | UpdateQuantity jsval jsval
  | ClearCart
  | SaveToStorage
  | LoadFromStorage
  | ReloadFromStorage
  | ClearStorage
  | GetStorageInfo
  | ValidateCart
  | HandleStorageError exn
  | Environment storage storage

definition keep_on_error :: "cart_state \<Rightarrow> error + cart_state \<Rightarrow> cart_state" where
  "keep_on_error s r = (case r of Inl e \<Rightarrow> s | Inr s' \<Rightarrow> s')"

fun exec :: "config \<Rightarrow> clock \<Rightarrow> call \<Rightarrow> cart_state \<Rightarrow> cart_state option" where
  "exec cfg clk (AddItem pid qty) s = Some (keep_on_error s (addItem cfg clk pid qty s))"
| "exec cfg clk (RemoveItem pid) s = Some (keep_on_error s (removeItem cfg clk pid s))"
| "exec cfg clk (UpdateQuantity pid qty) s = Some (keep_on_error s (updateQuantity cfg clk pid qty s))"
| "exec cfg clk ClearCart s = Some (clearCart cfg clk s)"
| "exec cfg clk SaveToStorage s = Some (saveToStorage cfg clk s)"
| "exec cfg clk LoadFromStorage s = loadFromStorage cfg clk s"
| "exec cfg clk ReloadFromStorage s = loadFromStorage cfg clk s"
| "exec cfg clk ClearStorage s = Some (clearStorage s)"
| "exec cfg clk GetStorageInfo s = Some (snd (getStorageInfo s))"
| "exec cfg clk ValidateCart s = Some (snd (validateCart cfg s))"
| "exec cfg clk (HandleStorageError e) s = Some (handleStorageError e s)"
| "exec cfg clk (Environment ls ss) s = Some (s\<lparr>localStorage := ls, sessionStorage := ss\<rparr>)"

fun run :: "config \<Rightarrow> (clock \<times> call) list \<Rightarrow> cart_state \<Rightarrow> cart_state option" where
  "run cfg [] s = Some s"
| "run cfg (c # cs) s =
     (case exec cfg (fst c) (snd c) s of None \<Rightarrow> None | Some s' \<Rightarrow> run cfg cs s')"

text \<open>
  A caller adding quantities of one product in turn, each call at its own clock reading,
  and collecting the errors raised.
\<close>

fun addItems :: "config \<Rightarrow> jsval \<Rightarrow> (clock \<times> number) list \<Rightarrow> cart_state \<Rightarrow> error list \<times> cart_state" where
  "addItems cfg pid [] s = ([], s)"
| "addItems cfg pid (c # cs) s =
     (case addItem cfg (fst c) pid (JNum (snd c)) s of
        Inl e \<Rightarrow> (let r = addItems cfg pid cs s in (e # fst r, snd r))
      | Inr s' \<Rightarrow> addItems cfg pid cs s')"

text \<open>
  A caller taking backups of one key in turn, each call at its own clock reading.
\<close>

fun createBackups :: "storage \<Rightarrow> string set \<Rightarrow> string \<Rightarrow> (clock \<times> jsval) list \<Rightarrow> storage \<times> string set" where
  "createBackups ls bk key [] = (ls, bk)"
| "createBackups ls bk key (c # cs) =
     createBackups (fst (createBackup ls bk (fst c) key (snd c)))
                   (snd (createBackup ls bk (fst c) key (snd c))) key cs"

section \<open>Properties\<close>

lemma sanitize_integer_number: "sanitize_integer (JNum r) = Some (of_int \<lfloor>r\<rfloor>)"
  by (simp add: sanitize_integer_def sanitize_number_def Math_floor_def)

subsection \<open>Fields kept by the helpers\<close>

lemma notifyListeners_fields [simp]:
  "items (notifyListeners ev s) = items s"
  "sessionOnly (notifyListeners ev s) = sessionOnly s"
  "localStorage (notifyListeners ev s) = localStorage s"
  "notified (notifyListeners ev s) = notified s @ [ev]"
  by (simp_all add: notifyListeners_def)

lemma handleStorageError_fields [simp]:
  "items (handleStorageError e s) = items s"
  "sessionOnly (handleStorageError e s) = True"
  "localStorage (handleStorageError e s) = localStorage s"
  by (simp_all add: handleStorageError_def)

lemma reportStorageError_fields [simp]:
  "items (reportStorageError cfg e c s) = items s"
  "sessionOnly (reportStorageError cfg e c s) = sessionOnly s"
  "localStorage (reportStorageError cfg e c s) = localStorage s"
  "notified (reportStorageError cfg e c s) = notified s"
  by (simp_all add: reportStorageError_def)

lemma writeItem_fields:
  "writeItem cfg k v s = Inr s' \<Longrightarrow> items s' = items s \<and> sessionOnly s' = sessionOnly s \<and> notified s' = notified s"
  by (auto simp: writeItem_def split: if_splits sum.splits)

lemma backupExisting_fields:
  "backupExisting cfg clk s = Inr s' \<Longrightarrow> items s' = items s \<and> sessionOnly s' = sessionOnly s \<and> notified s' = notified s"
  by (auto simp: backupExisting_def Let_def split: if_splits sum.splits option.splits)

lemma saveToStorage_try_fields:
  "saveToStorage_try cfg clk s = Inr s' \<Longrightarrow> items s' = items s \<and> sessionOnly s' = sessionOnly s \<and> notified s' = notified s"
  "saveToStorage_try cfg clk s = Inl (e, s1) \<Longrightarrow> items s1 = items s \<and> sessionOnly s1 = sessionOnly s \<and> notified s1 = notified s"
  by (auto simp: saveToStorage_try_def split: sum.splits dest!: writeItem_fields backupExisting_fields)

lemma saveToStorage_items [simp]: "items (saveToStorage cfg clk s) = items s"
  by (auto simp: saveToStorage_def split: sum.splits dest!: saveToStorage_try_fields)

lemma saveToStorage_sessionOnly: "sessionOnly s \<Longrightarrow> saveToStorage cfg clk s = s"
  by (simp add: saveToStorage_def)

lemma saveToStorage_keeps_sessionOnly: "sessionOnly s \<Longrightarrow> sessionOnly (saveToStorage cfg clk s)"
  by (simp add: saveToStorage_def)

subsection \<open>What recovery returns for a cart\<close>

lemma cart_validate_shape:
  "cart_validate v \<Longrightarrow> \<exists>fs ds. v = JObj fs \<and> map_of fs ''items'' = Some (JArr ds)"
  by (cases v) (auto simp: cart_validate_def split: option.splits jsval.splits if_splits)

lemma cart_repair_shape:
  "\<exists>fs ds. cart_repair stamp v = JObj fs \<and> map_of fs ''items'' = Some (JArr ds)"
  by (auto simp: cart_repair_def split: jsval.splits)

lemma cart_fallback_shape:
  "\<exists>fs ds. getFallbackData stamp ''cart'' = JObj fs \<and> map_of fs ''items'' = Some (JArr ds)"
  by (simp add: getFallbackData_def recoveryStrategies_def cart_fallback_def)

definition cart_shaped :: "jsval \<Rightarrow> bool" where
  "cart_shaped v = (case v of JObj fs \<Rightarrow> (case map_of fs ''items'' of Some (JArr ds) \<Rightarrow> True | _ \<Rightarrow> False) | _ \<Rightarrow> False)"

lemma cart_shaped_iff: "cart_shaped v = (\<exists>fs ds. v = JObj fs \<and> map_of fs ''items'' = Some (JArr ds))"
  by (auto simp: cart_shaped_def split: jsval.splits option.splits)

lemma validate_parsed_cart:
  "success (validate_parsed stamp ''cart'' r v) \<and> cart_shaped (data (validate_parsed stamp ''cart'' r v))"
  using cart_validate_shape [of v] cart_repair_shape [of stamp v]
  by (auto simp: validate_parsed_def recoveryStrategies_def cart_shaped_iff)

lemma fallback_result_cart:
  "success (fallback_result stamp ''cart'' es) \<and> cart_shaped (data (fallback_result stamp ''cart'' es))"
  using cart_fallback_shape [of stamp] by (auto simp: fallback_result_def cart_shaped_iff)

lemma recoverData_cart_shape:
  "success (recoverData ls clk key ''cart'') \<and> cart_shaped (data (recoverData ls clk key ''cart''))"
  by (auto simp: recoverData_def recoverData_try_def Let_def validate_parsed_cart fallback_result_cart
      split: sum.splits option.splits if_splits)

subsection \<open>Loading returns\<close>

lemma cart_shaped_truthy: "cart_shaped v \<Longrightarrow> truthy v"
  by (auto simp: cart_shaped_iff)

lemma cart_shaped_items: "cart_shaped v \<Longrightarrow> \<exists>ds. get_prop v ''items'' = JArr ds"
  by (auto simp: cart_shaped_iff)

lemma load_from_sessionOnly: "sessionOnly s \<Longrightarrow> sessionOnly (load_from cfg clk typed ds s)"
  by (simp add: load_from_def Let_def saveToStorage_def)

lemma loadFromStorage_try_recovery:
  assumes "dataRecovery_defined cfg"
  shows "\<exists>ds. loadFromStorage_try cfg clk s = Inr (load_from cfg clk False ds s)"
proof -
  let ?r = "recoverData (localStorage s) clk storageKey ''cart''"
  have sh: "success ?r" "cart_shaped (data ?r)"
    using recoverData_cart_shape [of "localStorage s" clk storageKey] by simp_all
  then obtain ds where "get_prop (data ?r) ''items'' = JArr ds"
    using cart_shaped_items by blast
  then show ?thesis
    using assms sh cart_shaped_truthy [OF sh(2)]
    by (auto simp: loadFromStorage_try_def Let_def)
qed

lemma load_plain_sessionOnly:
  "sessionOnly s \<Longrightarrow> load_plain cfg clk s = Inr s' \<Longrightarrow> sessionOnly s'"
  by (auto simp: load_plain_def load_from_sessionOnly split: sum.splits option.splits if_splits jsval.splits)

lemma clearStorageData_fields [simp]:
  "sessionOnly (clearStorageData s) = sessionOnly s"
  "items (clearStorageData s) = items s"
  by (auto simp: clearStorageData_def split: sum.splits)

lemma loadFromStorage_returns:
  "\<exists>s'. loadFromStorage cfg clk s = Some s' \<and> (sessionOnly s \<longrightarrow> sessionOnly s')"
proof (cases "dataRecovery_defined cfg")
  case True
  then obtain ds where "loadFromStorage_try cfg clk s = Inr (load_from cfg clk False ds s)"
    using loadFromStorage_try_recovery by blast
  then show ?thesis
    by (subst loadFromStorage.simps) (simp add: load_from_sessionOnly)
next
  case False
  then have t: "loadFromStorage_try cfg clk s = load_plain cfg clk s"
    by (simp add: loadFromStorage_try_def)
  show ?thesis
  proof (cases "load_plain cfg clk s")
    case (Inl es)
    then show ?thesis using False t
      by (subst loadFromStorage.simps) (simp add: Let_def)
  next
    case (Inr s')
    then show ?thesis using t load_plain_sessionOnly [of s cfg clk s']
      by (subst loadFromStorage.simps) simp
  qed
qed

subsection \<open>Session-only mode\<close>

lemma addItem_sessionOnly:
  "sessionOnly s \<Longrightarrow> addItem cfg clk pid qty s = Inr s' \<Longrightarrow> sessionOnly s'"
  by (auto simp: addItem_def addItem_try_def Let_def saveToStorage_def
      split: sum.splits option.splits if_splits prod.splits)

lemma removeItem_sessionOnly:
  "sessionOnly s \<Longrightarrow> removeItem cfg clk pid s = Inr s' \<Longrightarrow> sessionOnly s'"
  by (auto simp: removeItem_def saveToStorage_def split: jsval.splits if_splits)

lemma updateQuantity_sessionOnly:
  "sessionOnly s \<Longrightarrow> updateQuantity cfg clk pid qty s = Inr s' \<Longrightarrow> sessionOnly s'"
  by (auto simp: updateQuantity_def saveToStorage_def dest: removeItem_sessionOnly
      split: sum.splits option.splits if_splits prod.splits)

lemma clearCart_sessionOnly: "sessionOnly s \<Longrightarrow> sessionOnly (clearCart cfg clk s)"
  by (simp add: clearCart_def saveToStorage_def)

lemma clearStorage_sessionOnly [simp]: "sessionOnly (clearStorage s) = sessionOnly s"
  by (auto simp: clearStorage_def split: sum.splits)

lemma getStorageInfo_sessionOnly [simp]: "sessionOnly (snd (getStorageInfo s)) = sessionOnly s"
  by (auto simp: getStorageInfo_def Let_def split: sum.splits)

lemma getStorageInfo_reports: "sessionOnly s \<Longrightarrow> info_sessionOnly (fst (getStorageInfo s))"
  by (auto simp: getStorageInfo_def Let_def split: sum.splits)

lemma validateCart_sessionOnly [simp]: "sessionOnly (snd (validateCart cfg s)) = sessionOnly s"
  by (simp add: validateCart_def Let_def)

lemma exec_sessionOnly:
  assumes so: "sessionOnly s"
  shows "\<exists>s'. exec cfg clk c s = Some s' \<and> sessionOnly s'"
proof (cases c)
  case (AddItem pid qty)
  then show ?thesis using so
    by (cases "addItem cfg clk pid qty s") (auto simp: keep_on_error_def dest: addItem_sessionOnly)
next
  case (RemoveItem pid)
  then show ?thesis using so
    by (cases "removeItem cfg clk pid s") (auto simp: keep_on_error_def dest: removeItem_sessionOnly)
next
  case (UpdateQuantity pid qty)
  then show ?thesis using so
    by (cases "updateQuantity cfg clk pid qty s")
       (auto simp: keep_on_error_def dest: updateQuantity_sessionOnly)
next
  case LoadFromStorage
  then show ?thesis using so loadFromStorage_returns [of cfg clk s] by auto
next
  case ReloadFromStorage
  then show ?thesis using so loadFromStorage_returns [of cfg clk s] by auto
qed (use so in \<open>simp_all add: clearCart_sessionOnly saveToStorage_keeps_sessionOnly\<close>)

lemma run_sessionOnly:
  "sessionOnly s \<Longrightarrow> \<exists>s'. run cfg calls s = Some s' \<and> sessionOnly s'"
proof (induction calls arbitrary: s)
  case Nil
  then show ?case by simp
next
  case (Cons c cs)
  from exec_sessionOnly [OF Cons.prems, of cfg "fst c" "snd c"]
  obtain s1 where s1: "exec cfg (fst c) (snd c) s = Some s1" "sessionOnly s1" by blast
  with Cons.IH [of s1] show ?case by simp
qed

text \<open>
  C7. Once \<open>_handleStorageError\<close> has handled an error, the manager stays in session-only
  mode: whatever calls follow (and whatever the environment does to the stores), every
  call returns, the flag is still set, \<open>saveToStorage\<close> leaves the whole state, the
  stores included, as it is, and \<open>getStorageInfo\<close> reports \<open>sessionOnly\<close>.
\<close>

theorem session_only_is_permanent:
  "\<exists>s'. run cfg calls (handleStorageError e s) = Some s'
        \<and> sessionOnly s'
        \<and> saveToStorage cfg clk s' = s'
        \<and> info_sessionOnly (fst (getStorageInfo s'))"
proof -
  have "sessionOnly (handleStorageError e s)" by simp
  from run_sessionOnly [OF this, of cfg calls]
  obtain s' where "run cfg calls (handleStorageError e s) = Some s'" "sessionOnly s'" by blast
  then show ?thesis
    by (auto simp: saveToStorage_sessionOnly getStorageInfo_reports)
qed

subsection \<open>Recovery of stored texts\<close>

text \<open>The stored texts of the examples, a clock reading and two stores.\<close>

definition invalid_cart_text :: string where
  \<open>invalid_cart_text = ''{"items":[{"productId":-1,"quantity":-5}]}''\<close>

definition truncated_cart_text :: string where
  \<open>truncated_cart_text = ''{"items":[{"productId":1,"quantity":2}''\<close>

definition example_clock :: clock where
  "example_clock = \<lparr>now_ms = 1700000000000, now_iso = ''2023-11-14T22:13:20.000Z''\<rparr>"

definition storage_holding :: "string \<Rightarrow> string \<Rightarrow> storage" where
  "storage_holding k v = \<lparr>entries = [(k, v)], accessFault = None, writeFault = None\<rparr>"

text \<open>
  The entries of a parsed value, and the entries the repair keeps, in the words of the
  specification: \<open>productId\<close> and \<open>quantity\<close> are both numbers greater than zero.
\<close>

definition stored_items :: "jsval \<Rightarrow> jsval list" where
  "stored_items v = (case get_prop v ''items'' of JArr its \<Rightarrow> its | _ \<Rightarrow> [])"

definition positive_entry :: "jsval \<Rightarrow> bool" where
  "positive_entry item =
     (case get_prop item ''productId'' of
        JNum p \<Rightarrow> (case get_prop item ''quantity'' of JNum q \<Rightarrow> 0 < p \<and> 0 < q | _ \<Rightarrow> False)
      | _ \<Rightarrow> False)"

lemma JSON_parse_empty: "JSON_parse [] = None"
  by (simp add: JSON_parse_def tokenize_def)

lemma cart_item_keep_positive: "cart_item_keep item = positive_entry item"
  by (cases item) (auto simp: cart_item_keep_def positive_entry_def split: jsval.splits option.splits)

lemma cart_repair_items:
  "get_prop (cart_repair stamp v) ''items''
     = JArr (map (cart_item_fix stamp) (filter positive_entry (stored_items v)))"
proof -
  have "cart_item_keep = positive_entry" by (rule ext) (rule cart_item_keep_positive)
  then show ?thesis
    by (cases v) (auto simp: cart_repair_def stored_items_def split: jsval.splits option.splits)
qed

text \<open>
  C3. When the stored text parses but the parsed value fails the cart validator,
  \<open>recoverData\<close> succeeds with strategy \<open>data-repair\<close>, and the \<open>items\<close> of the
  repaired cart are the stored entries whose \<open>productId\<close> and \<open>quantity\<close> are both numbers
  greater than zero, in their order, each normalised by \<open>cart_item_fix\<close> (absolute value,
  floor, a missing \<open>addedAt\<close> filled in). For the text
  \<open>{"items":[{"productId":-1,"quantity":-5}]}\<close> no entry is left.
\<close>

theorem recoverData_data_repair:
  assumes stored: "Storage_getItem ls key = Inr (Some raw)"
    and parsed: "JSON_parse raw = Some v"
    and invalid: "\<not> cart_validate v"
  shows "success (recoverData ls clk key ''cart'')
       \<and> strategy_used (recoverData ls clk key ''cart'') = ''data-repair''
       \<and> get_prop (data (recoverData ls clk key ''cart'')) ''items''
           = JArr (map (cart_item_fix (now_iso clk)) (filter positive_entry (stored_items v)))"
proof -
  have "raw \<noteq> []" using parsed JSON_parse_empty by auto
  then have "recoverData ls clk key ''cart''
      = \<lparr>success = True, data = cart_repair (now_iso clk) v, strategy_used = ''data-repair'',
         rerrors = []\<rparr>"
    using stored parsed invalid
    by (simp add: recoverData_def recoverData_try_def validate_parsed_def recoveryStrategies_def)
  then show ?thesis by (simp add: cart_repair_items)
qed

lemma parse_invalid_cart_text:
  "JSON_parse invalid_cart_text
     = Some (JObj [(''items'', JArr [JObj [(''productId'', JNum (- 1)), (''quantity'', JNum (- 5))]])])"
  by code_simp

lemma invalid_cart_not_valid:
  "\<not> cart_validate (JObj [(''items'', JArr [JObj [(''productId'', JNum (- 1)), (''quantity'', JNum (- 5))]])])"
  by code_simp

lemma invalid_cart_no_positive:
  "filter positive_entry (stored_items (JObj [(''items'', JArr [JObj [(''productId'', JNum (- 1)), (''quantity'', JNum (- 5))]])])) = []"
  by code_simp

theorem recoverData_data_repair_witness:
  "success (recoverData (storage_holding storageKey invalid_cart_text) example_clock storageKey ''cart'')
   \<and> strategy_used (recoverData (storage_holding storageKey invalid_cart_text) example_clock storageKey ''cart'')
       = ''data-repair''
   \<and> get_prop (data (recoverData (storage_holding storageKey invalid_cart_text) example_clock storageKey ''cart''))
        ''items'' = JArr []"
proof -
  have g: "Storage_getItem (storage_holding storageKey invalid_cart_text) storageKey = Inr (Some invalid_cart_text)"
    by (simp add: Storage_getItem_def storage_holding_def)
  show ?thesis
    using recoverData_data_repair [OF g parse_invalid_cart_text invalid_cart_not_valid, of example_clock]
    by (simp add: invalid_cart_no_positive)
qed

definition repaired_cart_text :: string where
  \<open>repaired_cart_text = ''{"items":[{"productId":1,"quantity":2}]}''\<close>

definition repaired_cart :: jsval where
  "repaired_cart = JObj [(''items'', JArr [JObj [(''productId'', JNum 1), (''quantity'', JNum 2)]])]"

lemma parse_truncated_cart_text: "JSON_parse truncated_cart_text = None"
  by code_simp

lemma repair_truncated_cart_text: "repairMalformedJson truncated_cart_text = Some repaired_cart_text"
  by code_simp

lemma parse_repaired_cart_text: "JSON_parse repaired_cart_text = Some repaired_cart"
  by code_simp

lemma repaired_cart_valid: "cart_validate repaired_cart"
  by code_simp

lemma text_not_empty: "truncated_cart_text \<noteq> []" "repaired_cart_text \<noteq> []"
  by (simp_all add: truncated_cart_text_def repaired_cart_text_def)

lemma json_repair_label_overwritten:
  assumes "Storage_getItem ls key = Inr (Some raw)"
    and "JSON_parse raw = None"
    and "repairMalformedJson raw = Some fixed"
    and "dataType = ''cart'' \<or> dataType = ''preferences''"
  shows "strategy_used (recoverData ls clk key dataType) = ''validation-passed''
       \<or> strategy_used (recoverData ls clk key dataType) = ''data-repair''"
proof -
  from assms(3) obtain v where v: "JSON_parse fixed = Some v"
    by (auto simp: repairMalformedJson_def Let_def split: option.splits)
  then have "fixed \<noteq> []" using JSON_parse_empty by auto
  moreover have "raw \<noteq> []" using assms(3) assms(2)
    by (auto simp: repairMalformedJson_def Let_def js_trim_def count_char_def JSON_parse_empty quote_keys.simps
        split: option.splits)
  ultimately show ?thesis using assms v
    by (auto simp: recoverData_def recoverData_try_def validate_parsed_def recoveryStrategies_def Let_def)
qed

text \<open>
  C4. A stored text that fails to parse and whose repaired form parses should come back
  with strategy \<open>json-repair\<close>. For the text \<open>{"items":[{"productId":1,"quantity":2}\<close>
  the repair appends the missing closers and the repaired text parses, but the strategy
  reported for a cart is \<open>validation-passed\<close>: the validation step that follows
  overwrites the label \<open>json-repair\<close> (for every kind with a strategy, as
  \<open>json_repair_label_overwritten\<close> shows).
\<close>

theorem json_repair_reported_as_validation_passed:
  "JSON_parse truncated_cart_text = None
   \<and> repairMalformedJson truncated_cart_text = Some repaired_cart_text
   \<and> recoverData (storage_holding storageKey truncated_cart_text) example_clock storageKey ''cart''
       = \<lparr>success = True, data = repaired_cart, strategy_used = ''validation-passed'',
          rerrors = [JSONParseError]\<rparr>"
  by (simp add: parse_truncated_cart_text repair_truncated_cart_text parse_repaired_cart_text
      repaired_cart_valid text_not_empty recoverData_def recoverData_try_def validate_parsed_def
      recoveryStrategies_def Storage_getItem_def storage_holding_def)

lemma preferences_repair_object: "truthy (preferences_repair v) \<and> typeof_object (preferences_repair v)"
  by (simp add: preferences_repair_def)

lemma validate_parsed_preferences:
  "success (validate_parsed stamp ''preferences'' r v)
   \<and> truthy (data (validate_parsed stamp ''preferences'' r v))
   \<and> typeof_object (data (validate_parsed stamp ''preferences'' r v))"
  by (auto simp: validate_parsed_def recoveryStrategies_def preferences_validate_def preferences_repair_object)

lemma fallback_result_preferences:
  "success (fallback_result stamp ''preferences'' es)
   \<and> truthy (data (fallback_result stamp ''preferences'' es))
   \<and> typeof_object (data (fallback_result stamp ''preferences'' es))"
  by (simp add: fallback_result_def getFallbackData_def recoveryStrategies_def)

lemma recoverData_preferences:
  "success (recoverData ls clk key ''preferences'')
   \<and> truthy (data (recoverData ls clk key ''preferences''))
   \<and> typeof_object (data (recoverData ls clk key ''preferences''))"
  by (auto simp: recoverData_def recoverData_try_def Let_def validate_parsed_preferences
      fallback_result_preferences split: sum.splits option.splits if_splits)

lemma truthy_not_nullish: "truthy v \<Longrightarrow> v \<noteq> JNull \<and> v \<noteq> JUndefined"
  by (cases v) auto

text \<open>
  C5. For every store (failing or not), key and clock, and for both supported kinds,
  \<open>recoverData\<close> returns a result (an exception of the storage read is caught) with
  \<open>success\<close> true and data that is neither \<open>null\<close> nor \<open>undefined\<close>: an object; for a
  cart, an object with an array \<open>items\<close>.
\<close>

theorem recoverData_always_usable:
  assumes "dataType = ''cart'' \<or> dataType = ''preferences''"
  shows "success (recoverData ls clk key dataType)
       \<and> data (recoverData ls clk key dataType) \<noteq> JNull
       \<and> data (recoverData ls clk key dataType) \<noteq> JUndefined
       \<and> truthy (data (recoverData ls clk key dataType))
       \<and> typeof_object (data (recoverData ls clk key dataType))
       \<and> (if dataType = ''cart'' then cart_shaped (data (recoverData ls clk key dataType)) else True)"
proof (cases "dataType = ''cart''")
  case True
  have "cart_shaped (data (recoverData ls clk key ''cart''))" "success (recoverData ls clk key ''cart'')"
    using recoverData_cart_shape [of ls clk key] by simp_all
  moreover from this(1) have "typeof_object (data (recoverData ls clk key ''cart''))"
    by (auto simp: cart_shaped_iff)
  ultimately show ?thesis using True cart_shaped_truthy truthy_not_nullish by auto
next
  case False
  with assms have p: "dataType = ''preferences''" by simp
  show ?thesis using recoverData_preferences [of ls clk key] truthy_not_nullish False
    unfolding p by auto
qed

definition broken_storage :: storage where
  "broken_storage = \<lparr>entries = [], accessFault = Some \<lparr>exn_name = ''SecurityError'',
     exn_message = ''The operation is insecure.''\<rparr>, writeFault = None\<rparr>"

theorem recoverData_always_usable_witness:
  "recoverData broken_storage example_clock storageKey ''cart''
     = \<lparr>success = True,
        data = JObj [(''items'', JArr []), (''timestamp'', JStr ''2023-11-14T22:13:20.000Z'')],
        strategy_used = ''fallback'',
        rerrors = [RecoveryError \<lparr>exn_name = ''SecurityError'', exn_message = ''The operation is insecure.''\<rparr>]\<rparr>
   \<and> success (recoverData broken_storage example_clock storageKey ''cart'')
   \<and> data (recoverData broken_storage example_clock storageKey ''cart'') \<noteq> JNull
   \<and> cart_shaped (data (recoverData broken_storage example_clock storageKey ''cart''))"
proof -
  have "''cart'' = ''cart'' \<or> ''cart'' = ''preferences''" by simp
  from recoverData_always_usable [OF this, of broken_storage example_clock storageKey]
  show ?thesis
    by (simp add: recoverData_def recoverData_try_def Storage_getItem_def broken_storage_def
        fallback_result_def getFallbackData_def recoveryStrategies_def cart_fallback_def example_clock_def)
qed

subsection \<open>Removing and updating\<close>

text \<open>
  The usual surroundings (every optional module loaded, the sample catalog), an empty
  store and two carts for the examples.
\<close>

definition default_config :: config where
  "default_config =
     \<lparr>products = loadProducts SAMPLE_PRODUCTS, inputValidator_defined = True,
      dataRecovery_defined = True, gracefulDegradation_defined = True,
      localStorage_supported = True, sessionStorage_supported = True,
      errorHandler_defined = True, syntaxErrorMessage = ''Unexpected end of JSON input''\<rparr>"

definition empty_storage :: storage where
  "empty_storage = \<lparr>entries = [], accessFault = None, writeFault = None\<rparr>"

definition empty_cart :: cart_state where
  "empty_cart = new_state empty_storage empty_storage [] {}"

fun positive_number :: "jsval \<Rightarrow> bool" where
  "positive_number (JNum p) = (0 < p)"
| "positive_number v = False"

lemma loadProducts_SAMPLE: "loadProducts SAMPLE_PRODUCTS = SAMPLE_PRODUCTS"
  by code_simp

lemma products_default: "products default_config = SAMPLE_PRODUCTS"
  by (simp add: default_config_def loadProducts_SAMPLE)

lemma findProduct_1: "findProduct SAMPLE_PRODUCTS 1 \<noteq> None"
  by code_simp

lemma integer_positive_ge_1:
  assumes i: "Number_isInteger p" and pos: "0 < p"
  shows "1 \<le> p"
proof -
  from i have e: "of_int \<lfloor>p\<rfloor> = p" unfolding Number_isInteger_def .
  have "0 < \<lfloor>p\<rfloor>" using pos e by (metis of_int_0_less_iff)
  then have "1 \<le> \<lfloor>p\<rfloor>" by linarith
  then have "(1::rat) \<le> of_int \<lfloor>p\<rfloor>" by (metis of_int_1_le_iff)
  then show ?thesis using e by simp
qed

lemma sanitize_integer_whole: "Number_isInteger p \<Longrightarrow> sanitize_integer (JNum p) = Some p"
  by (simp add: sanitize_integer_def sanitize_number_def Math_floor_def Number_isInteger_def)

lemma validateProductId_ok:
  assumes "Number_isInteger p" "0 < p" "findProduct ps p \<noteq> None"
  shows "validateProductId ps (JNum p) = \<lparr>isValid = True, errors = [], sanitizedValue = Some p\<rparr>"
  using assms integer_positive_ge_1 [of p]
  by (simp add: validateProductId_def validate_def validationRules_def sanitize_def sanitize_integer_whole)

lemma validateQuantity_ok:
  assumes "Number_isInteger q" "0 \<le> q" "q \<le> 999"
  shows "validateQuantity ps (JNum q) = \<lparr>isValid = True, errors = [], sanitizedValue = Some q\<rparr>"
  using assms
  by (auto simp: validateQuantity_def validate_def validationRules_def sanitize_def sanitize_integer_whole)

lemma isInteger_0 [simp]: "Number_isInteger 0"
  by (simp add: Number_isInteger_def)

lemma checkArguments_ok:
  assumes "0 < p"
    and "inputValidator_defined cfg \<Longrightarrow> Number_isInteger p \<and> findProduct (products cfg) p \<noteq> None"
    and "Number_isInteger q" "0 \<le> q"
    and "inputValidator_defined cfg \<Longrightarrow> q \<le> 999"
  shows "checkArguments cfg (JNum p) (JNum q) = Inr (p, q)"
proof (cases "inputValidator_defined cfg")
  case True
  with assms show ?thesis
    by (simp add: checkArguments_def validateProductId_ok validateQuantity_ok)
next
  case False
  with assms show ?thesis by (simp add: checkArguments_def)
qed

text \<open>
  C2 (amended). For a numeric product id that passes the argument checks of
  \<open>updateQuantity\<close> (a positive number; with the validator, a positive whole number found
  in the catalog): when the id has a cart entry, \<open>updateQuantity(id, 0)\<close> and
  \<open>removeItem(id)\<close> return the same outcome and the same state, and the entry is gone;
  when it has none, \<open>removeItem\<close> returns the state unchanged while \<open>updateQuantity\<close>
  raises "not found in cart".
\<close>

theorem updateQuantity_zero_is_removeItem:
  assumes "0 < p"
    and "inputValidator_defined cfg \<Longrightarrow> Number_isInteger p \<and> findProduct (products cfg) p \<noteq> None"
  shows "updateQuantity cfg clk (JNum p) (JNum 0) s
           = (if getCartItem s (JNum p) = None then Inl (NotFoundInCart p)
              else removeItem cfg clk (JNum p) s)
         \<and> (if getCartItem s (JNum p) = None then removeItem cfg clk (JNum p) s = Inr s
             else \<exists>s'. removeItem cfg clk (JNum p) s = Inr s' \<and> getCartItem s' (JNum p) = None)"
proof -
  have "checkArguments cfg (JNum p) (JNum 0) = Inr (p, 0)"
    using assms by (intro checkArguments_ok) simp_all
  then show ?thesis using assms(1)
    by (auto simp: updateQuantity_def removeItem_def getCartItem_def delete_conv
        split: option.splits)
qed

definition one_item_cart :: cart_state where
  "one_item_cart =
     empty_cart\<lparr>items := [(1, \<lparr>productId = 1, quantity = 2, addedAt = JStr ''2023-11-14T22:13:20.000Z''\<rparr>)]\<rparr>"

lemma default_product_1:
  "inputValidator_defined default_config \<Longrightarrow>
     Number_isInteger 1 \<and> findProduct (products default_config) 1 \<noteq> None"
  by (simp add: products_default findProduct_1 Number_isInteger_def)

theorem updateQuantity_zero_is_removeItem_witness:
  "updateQuantity default_config example_clock (JNum 1) (JNum 0) one_item_cart
     = removeItem default_config example_clock (JNum 1) one_item_cart
   \<and> (\<exists>s'. removeItem default_config example_clock (JNum 1) one_item_cart = Inr s'
            \<and> getCartItem s' (JNum 1) = None)"
  using updateQuantity_zero_is_removeItem [OF _ default_product_1, of example_clock one_item_cart]
  by (simp add: getCartItem_def one_item_cart_def)

text \<open>
  C2 as stated fails on an id with no entry: on the empty cart \<open>updateQuantity(1, 0)\<close>
  raises and \<open>removeItem(1)\<close> does not.
\<close>

theorem updateQuantity_zero_counterexample:
  "updateQuantity default_config example_clock (JNum 1) (JNum 0) empty_cart = Inl (NotFoundInCart 1)
   \<and> removeItem default_config example_clock (JNum 1) empty_cart = Inr empty_cart"
proof -
  have "checkArguments default_config (JNum 1) (JNum 0) = Inr (1, 0)"
    using default_product_1 by (intro checkArguments_ok) simp_all
  then show ?thesis
    by (simp add: updateQuantity_def removeItem_def empty_cart_def new_state_def)
qed

subsection \<open>Persistence\<close>

lemma remove_backups_faults:
  "accessFault (fst (remove_backups ks ls bk)) = accessFault ls
   \<and> writeFault (fst (remove_backups ks ls bk)) = writeFault ls"
  by (induction ks arbitrary: ls bk) (auto simp: Storage_removeItem_def split: option.splits)

lemma remove_backups_other_key:
  "k \<notin> set ks \<Longrightarrow> map_of (entries (fst (remove_backups ks ls bk))) k = map_of (entries ls) k"
  by (induction ks arbitrary: ls bk) (auto simp: Storage_removeItem_def delete_conv split: option.splits)

lemma cleanupOldBackups_faults:
  "accessFault (fst (cleanupOldBackups ls bk key)) = accessFault ls
   \<and> writeFault (fst (cleanupOldBackups ls bk key)) = writeFault ls"
  by (auto simp: cleanupOldBackups_def remove_backups_faults split: sum.splits)

lemma createBackup_faults:
  "accessFault (fst (createBackup ls bk clk key d)) = accessFault ls
   \<and> writeFault (fst (createBackup ls bk clk key d)) = writeFault ls"
  by (auto simp: createBackup_def Let_def cleanupOldBackups_faults Storage_setItem_def
      split: sum.splits option.splits)

lemma backupExisting_healthy:
  assumes "accessFault (localStorage s) = None"
  shows "\<exists>s1. backupExisting cfg clk s = Inr s1
          \<and> accessFault (localStorage s1) = None
          \<and> writeFault (localStorage s1) = writeFault (localStorage s)
          \<and> items s1 = items s \<and> sessionOnly s1 = sessionOnly s \<and> notified s1 = notified s"
  using assms createBackup_faults
  by (auto simp: backupExisting_def Storage_getItem_def Let_def split: option.splits)

lemma storageKey_neq_timestampKey: "storageKey \<noteq> timestampKey"
  by (simp add: storageKey_def timestampKey_def)

lemma saveToStorage_persists:
  assumes "\<not> sessionOnly s"
    and "accessFault (localStorage s) = None" and "writeFault (localStorage s) = None"
    and "\<not> (gracefulDegradation_defined cfg \<and> \<not> localStorage_supported cfg)"
  shows "Storage_getItem (localStorage (saveToStorage cfg clk s)) storageKey
           = Inr (Some (stringify_text (cartData_of clk s)))
         \<and> \<not> sessionOnly (saveToStorage cfg clk s)
         \<and> notified (saveToStorage cfg clk s) = notified s"
proof -
  from backupExisting_healthy [OF assms(2), of cfg clk] assms(3)
  obtain s1 where s1: "backupExisting cfg clk s = Inr s1" "accessFault (localStorage s1) = None"
    "writeFault (localStorage s1) = None" "sessionOnly s1 = sessionOnly s" "notified s1 = notified s"
    by auto
  then show ?thesis using assms storageKey_neq_timestampKey
    by (auto simp: saveToStorage_def saveToStorage_try_def writeItem_def Storage_setItem_def
        Storage_getItem_def update_conv)
qed

lemma saveToStorage_notified_prefix:
  "take (length (notified s)) (notified (saveToStorage cfg clk s)) = notified s"
  by (auto simp: saveToStorage_def handleStorageError_def split: sum.splits
      dest!: saveToStorage_try_fields)

text \<open>
  C10 (amended). \<open>removeItem(productId)\<close> raises exactly when \<open>productId\<close> is not a
  number greater than zero (it need not be whole). For a positive number with no entry
  the state is returned unchanged. For one with an entry, the result is the state with
  the entry deleted, \<open>itemRemoved\<close> notified and \<open>saveToStorage\<close> applied: the entry
  is gone, the other entries are as before, the notification follows the earlier ones,
  and in normal mode with a healthy \<open>localStorage\<close> the stored text is the serialised
  cart without the entry.
\<close>

theorem removeItem_outcome:
  "((\<exists>e. removeItem cfg clk pid s = Inl e) = (\<not> positive_number pid))
   \<and> (positive_number pid \<and> getCartItem s pid = None \<longrightarrow> removeItem cfg clk pid s = Inr s)
   \<and> (\<forall>p. pid = JNum p \<and> 0 < p \<and> getCartItem s pid \<noteq> None \<longrightarrow>
        (let removed = notifyListeners (ItemRemoved p) (s\<lparr>items := AList.delete p (items s)\<rparr>);
             s' = saveToStorage cfg clk removed
         in removeItem cfg clk pid s = Inr s'
            \<and> getCartItem s' pid = None
            \<and> (\<forall>k. k \<noteq> p \<longrightarrow> map_of (items s') k = map_of (items s) k)
            \<and> take (Suc (length (notified s))) (notified s') = notified s @ [ItemRemoved p]
            \<and> (\<not> sessionOnly s \<and> accessFault (localStorage s) = None
                 \<and> writeFault (localStorage s) = None
                 \<and> \<not> (gracefulDegradation_defined cfg \<and> \<not> localStorage_supported cfg)
                 \<longrightarrow> Storage_getItem (localStorage s') storageKey
                       = Inr (Some (stringify_text (cartData_of clk removed))))))"
proof (intro conjI allI impI)
  show "(\<exists>e. removeItem cfg clk pid s = Inl e) = (\<not> positive_number pid)"
    by (cases pid) (auto simp: removeItem_def)
next
  assume "positive_number pid \<and> getCartItem s pid = None"
  then show "removeItem cfg clk pid s = Inr s"
    by (cases pid) (auto simp: removeItem_def getCartItem_def)
next
  fix p
  assume a: "pid = JNum p \<and> 0 < p \<and> getCartItem s pid \<noteq> None"
  let ?removed = "notifyListeners (ItemRemoved p) (s\<lparr>items := AList.delete p (items s)\<rparr>)"
  let ?s' = "saveToStorage cfg clk ?removed"
  have r: "removeItem cfg clk pid s = Inr ?s'"
    using a by (auto simp: removeItem_def getCartItem_def)
  have g: "getCartItem ?s' pid = None"
    using a by (simp add: getCartItem_def delete_conv)
  have o: "\<forall>k. k \<noteq> p \<longrightarrow> map_of (items ?s') k = map_of (items s) k"
    by (simp add: delete_conv)
  have n: "take (Suc (length (notified s))) (notified ?s') = notified s @ [ItemRemoved p]"
    using saveToStorage_notified_prefix [of ?removed cfg clk] by simp
  have st: "\<not> sessionOnly s \<and> accessFault (localStorage s) = None
       \<and> writeFault (localStorage s) = None
       \<and> \<not> (gracefulDegradation_defined cfg \<and> \<not> localStorage_supported cfg)
       \<longrightarrow> Storage_getItem (localStorage ?s') storageKey
            = Inr (Some (stringify_text (cartData_of clk ?removed)))"
    using saveToStorage_persists [of ?removed cfg clk] by simp
  show "let removed = ?removed; s' = saveToStorage cfg clk removed
        in removeItem cfg clk pid s = Inr s'
           \<and> getCartItem s' pid = None
           \<and> (\<forall>k. k \<noteq> p \<longrightarrow> map_of (items s') k = map_of (items s) k)
           \<and> take (Suc (length (notified s))) (notified s') = notified s @ [ItemRemoved p]
           \<and> (\<not> sessionOnly s \<and> accessFault (localStorage s) = None
                \<and> writeFault (localStorage s) = None
                \<and> \<not> (gracefulDegradation_defined cfg \<and> \<not> localStorage_supported cfg)
                \<longrightarrow> Storage_getItem (localStorage s') storageKey
                      = Inr (Some (stringify_text (cartData_of clk removed))))"
    unfolding Let_def using r g o n st by blast
qed

lemma three_halves_not_integer: "\<not> Number_isInteger (3 / 2)"
  by code_simp

text \<open>
  C10 as stated fails on a positive number that is not whole: \<open>removeItem(1.5)\<close> does
  not raise.
\<close>

theorem removeItem_fraction_counterexample:
  "\<not> Number_isInteger (3 / 2)
   \<and> removeItem default_config example_clock (JNum (3 / 2)) one_item_cart = Inr one_item_cart"
  by (simp add: removeItem_def one_item_cart_def three_halves_not_integer)

theorem removeItem_outcome_witness:
  "positive_number (JNum 1) \<and> getCartItem one_item_cart (JNum 1) \<noteq> None
   \<and> (\<exists>s'. removeItem default_config example_clock (JNum 1) one_item_cart = Inr s'
          \<and> getCartItem s' (JNum 1) = None
          \<and> notified s' = [ItemRemoved 1]
          \<and> Storage_getItem (localStorage s') storageKey
               = Inr (Some (stringify_text (JObj [(''items'', JArr []),
                                                 (''timestamp'', JStr ''2023-11-14T22:13:20.000Z'')]))))"
proof -
  have h: "JNum 1 = JNum 1 \<and> (0::rat) < 1 \<and> getCartItem one_item_cart (JNum 1) \<noteq> None"
    by (simp add: getCartItem_def one_item_cart_def)
  have healthy: "\<not> sessionOnly one_item_cart \<and> accessFault (localStorage one_item_cart) = None
      \<and> writeFault (localStorage one_item_cart) = None
      \<and> \<not> (gracefulDegradation_defined default_config \<and> \<not> localStorage_supported default_config)"
    by (simp add: one_item_cart_def empty_cart_def new_state_def empty_storage_def default_config_def)
  have n: "notified one_item_cart = []"
    by (simp add: one_item_cart_def empty_cart_def new_state_def)
  let ?removed = "notifyListeners (ItemRemoved 1) (one_item_cart\<lparr>items := AList.delete 1 (items one_item_cart)\<rparr>)"
  have p: "notified (saveToStorage default_config example_clock ?removed) = notified ?removed"
    using saveToStorage_persists [of ?removed default_config example_clock] healthy by simp
  have c: "cartData_of example_clock ?removed
      = JObj [(''items'', JArr []), (''timestamp'', JStr ''2023-11-14T22:13:20.000Z'')]"
    by (simp add: cartData_of_def one_item_cart_def example_clock_def)
  from removeItem_outcome [of default_config example_clock "JNum 1" one_item_cart] h healthy
  show ?thesis
    unfolding Let_def by (auto simp: n p c)
qed

subsection \<open>Adding\<close>

lemma CartItem_new_ok:
  assumes "p \<noteq> 0" "0 \<le> q" "Number_isInteger q"
  shows "CartItem_new (JNum p) (JNum q) stamp = Inr \<lparr>productId = p, quantity = q, addedAt = JStr stamp\<rparr>"
  using assms by (simp add: CartItem_new_def)

lemma isInteger_add: "Number_isInteger a \<Longrightarrow> Number_isInteger b \<Longrightarrow> Number_isInteger (a + b)"
proof -
  assume "Number_isInteger a" "Number_isInteger b"
  then have a: "of_int \<lfloor>a\<rfloor> = a" and b: "of_int \<lfloor>b\<rfloor> = b" unfolding Number_isInteger_def by auto
  have "a + b = of_int (\<lfloor>a\<rfloor> + \<lfloor>b\<rfloor>)" using a b by (metis of_int_add)
  then have "of_int \<lfloor>a + b\<rfloor> = a + b" by (metis floor_of_int)
  then show ?thesis unfolding Number_isInteger_def .
qed


lemma update_appends: "k \<notin> fst ` set al \<Longrightarrow> AList.update k v al = al @ [(k, v)]"
  by (induction al) auto

lemma addItem_creates:
  assumes "findProduct (products cfg) p \<noteq> None" "0 < p"
    and "inputValidator_defined cfg \<Longrightarrow> Number_isInteger p"
    and "0 < q" "Number_isInteger q"
    and "inputValidator_defined cfg \<Longrightarrow> q \<le> 999"
    and "map_of (items s) p = None"
  shows "addItem cfg clk (JNum p) (JNum q) s
     = Inr (saveToStorage cfg clk (notifyListeners (ItemAdded p q)
             (s\<lparr>items := items s @ [(p, \<lparr>productId = p, quantity = q, addedAt = JStr (now_iso clk)\<rparr>)]\<rparr>)))"
proof -
  have c: "checkArguments cfg (JNum p) (JNum q) = Inr (p, q)"
    using assms by (intro checkArguments_ok) auto
  have u: "AList.update p v (items s) = items s @ [(p, v)]" for v
    using assms(7) by (simp add: update_appends map_of_eq_None_iff)
  show ?thesis using assms c
    by (auto simp: addItem_def addItem_try_def CartItem_new_ok u)
qed

lemma addItem_merges:
  assumes "findProduct (products cfg) p \<noteq> None" "0 < p"
    and "inputValidator_defined cfg \<Longrightarrow> Number_isInteger p"
    and "0 < q" "Number_isInteger q"
    and "map_of (items s) p = Some it" "0 \<le> quantity it" "Number_isInteger (quantity it)"
    and "inputValidator_defined cfg \<Longrightarrow> quantity it + q \<le> 999"
  shows "addItem cfg clk (JNum p) (JNum q) s
     = Inr (saveToStorage cfg clk (notifyListeners (ItemAdded p q)
             (s\<lparr>items := AList.update p (it\<lparr>quantity := quantity it + q\<rparr>) (items s)\<rparr>)))"
proof -
  have "inputValidator_defined cfg \<Longrightarrow> q \<le> 999" using assms by fastforce
  then have c: "checkArguments cfg (JNum p) (JNum q) = Inr (p, q)"
    using assms by (intro checkArguments_ok) auto
  have i: "Number_isInteger (quantity it + q)" using assms isInteger_add by blast
  have v: "inputValidator_defined cfg \<Longrightarrow> isValid (validateQuantity (products cfg) (JNum (quantity it + q)))"
    using assms i by (simp add: validateQuantity_ok)
  show ?thesis using assms c i v
    by (auto simp: addItem_def addItem_try_def Let_def CartItem_updateQuantity_def)
qed


lemma addItems_merge_all:
  assumes "findProduct (products cfg) p \<noteq> None" "0 < p"
    and "inputValidator_defined cfg \<Longrightarrow> Number_isInteger p"
    and "list_all (\<lambda>c. 0 < snd c \<and> Number_isInteger (snd c)) cs"
    and "map_of (items s) p = Some it" "0 \<le> quantity it" "Number_isInteger (quantity it)"
    and "inputValidator_defined cfg \<Longrightarrow> quantity it + sum_list (map snd cs) \<le> 999"
  shows "\<exists>s'. addItems cfg (JNum p) cs s = ([], s')
          \<and> map_of (items s') p = Some (it\<lparr>quantity := quantity it + sum_list (map snd cs)\<rparr>)
          \<and> map fst (items s') = map fst (items s)
          \<and> (\<forall>k. k \<noteq> p \<longrightarrow> map_of (items s') k = map_of (items s) k)"
  using assms(4-8)
proof (induction cs arbitrary: s it)
  case Nil
  then show ?case by simp
next
  case (Cons c cs)
  let ?it = "it\<lparr>quantity := quantity it + snd c\<rparr>"
  let ?s1 = "saveToStorage cfg (fst c) (notifyListeners (ItemAdded p (snd c))
               (s\<lparr>items := AList.update p ?it (items s)\<rparr>))"
  have q: "0 < snd c" "Number_isInteger (snd c)" using Cons.prems(1) by simp_all
  have rest: "list_all (\<lambda>c. 0 < snd c \<and> Number_isInteger (snd c)) cs" using Cons.prems(1) by simp
  have nonneg: "0 \<le> sum_list (map snd cs)"
    using rest by (induction cs) (auto intro: add_nonneg_nonneg)
  have bound: "inputValidator_defined cfg \<Longrightarrow> quantity it + snd c \<le> 999"
    using Cons.prems(5) nonneg by simp
  have step: "addItem cfg (fst c) (JNum p) (JNum (snd c)) s = Inr ?s1"
    using addItem_merges [OF assms(1-3) q Cons.prems(2-4) bound] by simp
  have m: "map_of (items ?s1) p = Some ?it" by (simp add: update_conv')
  have k: "p \<in> fst ` set (items s)" using Cons.prems(2) by (metis map_of_eq_None_iff option.distinct(1))
  have keys: "map fst (items ?s1) = map fst (items s)" using k by (simp add: update_keys)
  have others: "\<forall>k. k \<noteq> p \<longrightarrow> map_of (items ?s1) k = map_of (items s) k"
    by (simp add: update_conv')
  have b2: "inputValidator_defined cfg \<Longrightarrow> quantity ?it + sum_list (map snd cs) \<le> 999"
    using Cons.prems(5) by (simp add: add.assoc)
  have "0 \<le> quantity ?it" using Cons.prems(3) q(1) by simp
  moreover have "Number_isInteger (quantity ?it)" using Cons.prems(4) q(2) isInteger_add by simp
  ultimately obtain s' where s': "addItems cfg (JNum p) cs ?s1 = ([], s')"
      "map_of (items s') p = Some (?it\<lparr>quantity := quantity ?it + sum_list (map snd cs)\<rparr>)"
      "map fst (items s') = map fst (items ?s1)"
      "\<forall>k. k \<noteq> p \<longrightarrow> map_of (items s') k = map_of (items ?s1) k"
    using Cons.IH [OF rest m _ _ b2] by blast
  show ?case using step s' keys others by (simp add: add.assoc)
qed


lemma addItems_accumulate:
  assumes "findProduct (products cfg) p \<noteq> None" "0 < p"
    and "inputValidator_defined cfg \<Longrightarrow> Number_isInteger p"
    and "list_all (\<lambda>c. 0 < snd c \<and> Number_isInteger (snd c)) (c # cs)"
    and "inputValidator_defined cfg \<Longrightarrow> sum_list (map snd (c # cs)) \<le> 999"
    and "getCartItem s (JNum p) = None"
  shows "\<exists>s'. addItems cfg (JNum p) (c # cs) s = ([], s')
          \<and> getCartItem s' (JNum p)
              = Some \<lparr>productId = p, quantity = sum_list (map snd (c # cs)),
                       addedAt = JStr (now_iso (fst c))\<rparr>
          \<and> map fst (items s') = map fst (items s) @ [p]
          \<and> (\<forall>k. k \<noteq> p \<longrightarrow> map_of (items s') k = map_of (items s) k)"
proof -
  let ?it = "\<lparr>productId = p, quantity = snd c, addedAt = JStr (now_iso (fst c))\<rparr>"
  let ?s1 = "saveToStorage cfg (fst c) (notifyListeners (ItemAdded p (snd c))
               (s\<lparr>items := items s @ [(p, ?it)]\<rparr>))"
  have absent: "map_of (items s) p = None" using assms(6) by (simp add: getCartItem_def)
  have q: "0 < snd c" "Number_isInteger (snd c)" using assms(4) by simp_all
  have rest: "list_all (\<lambda>c. 0 < snd c \<and> Number_isInteger (snd c)) cs" using assms(4) by simp
  have nonneg: "0 \<le> sum_list (map snd cs)"
    using rest by (induction cs) (auto intro: add_nonneg_nonneg)
  have bound: "inputValidator_defined cfg \<Longrightarrow> snd c \<le> 999" using assms(5) nonneg by simp
  have step: "addItem cfg (fst c) (JNum p) (JNum (snd c)) s = Inr ?s1"
    using addItem_creates [OF assms(1-3) q bound absent] by simp
  have m: "map_of (items ?s1) p = Some ?it" using absent by (simp add: map_add_def)
  have b2: "inputValidator_defined cfg \<Longrightarrow> quantity ?it + sum_list (map snd cs) \<le> 999"
    using assms(5) by simp
  have "0 \<le> quantity ?it" "Number_isInteger (quantity ?it)" using q by simp_all
  from addItems_merge_all [OF assms(1-3) rest m this b2]
  obtain s' where s': "addItems cfg (JNum p) cs ?s1 = ([], s')"
      "map_of (items s') p = Some (?it\<lparr>quantity := quantity ?it + sum_list (map snd cs)\<rparr>)"
      "map fst (items s') = map fst (items ?s1)"
      "\<forall>k. k \<noteq> p \<longrightarrow> map_of (items s') k = map_of (items ?s1) k"
    by blast
  show ?thesis using step s' by (auto simp: getCartItem_def map_add_def split: option.splits)
qed

lemma whole_examples: "Number_isInteger 2" "Number_isInteger 3" "Number_isInteger 600" "Number_isInteger 1"
  by (simp_all add: Number_isInteger_def)

text \<open>
  A quantity with a fraction is not added as given: the validator's sanitizer takes its
  floor, so \<open>addItem(1, 2.9)\<close> is \<open>addItem(1, 2)\<close> and the entry holds 2. The quantities of
  the sequences below are therefore positive integers.
\<close>

lemma validateQuantity_fraction:
  "validateQuantity SAMPLE_PRODUCTS (JNum (29 / 10))
     = \<lparr>isValid = True, errors = [], sanitizedValue = Some 2\<rparr>"
  by code_simp

lemma addItem_floors_fraction:
  "addItem default_config example_clock (JNum 1) (JNum (29 / 10)) empty_cart
     = addItem default_config example_clock (JNum 1) (JNum 2) empty_cart
   \<and> map_option quantity
        (getCartItem (snd (addItems default_config (JNum 1) [(example_clock, 29 / 10)] empty_cart))
           (JNum 1))
       = Some 2"
proof -
  have f: "findProduct (products default_config) 1 \<noteq> None"
    by (simp add: products_default findProduct_1)
  have c1: "checkArguments default_config (JNum 1) (JNum (29 / 10)) = Inr (1, 2)"
    using findProduct_1
    by (simp add: checkArguments_def default_config_def loadProducts_SAMPLE validateProductId_ok
        validateQuantity_fraction Number_isInteger_def)
  have c2: "checkArguments default_config (JNum 1) (JNum 2) = Inr (1, 2)"
    using default_product_1 by (intro checkArguments_ok) (simp_all add: whole_examples)
  have e: "addItem default_config example_clock (JNum 1) (JNum (29 / 10)) empty_cart
      = addItem default_config example_clock (JNum 1) (JNum 2) empty_cart"
    by (simp add: addItem_def c1 c2)
  have m: "map_of (items empty_cart) 1 = None" by (simp add: empty_cart_def new_state_def)
  have "addItem default_config example_clock (JNum 1) (JNum 2) empty_cart
      = Inr (saveToStorage default_config example_clock (notifyListeners (ItemAdded 1 2)
             (empty_cart\<lparr>items := items empty_cart @
                [(1, \<lparr>productId = 1, quantity = 2, addedAt = JStr (now_iso example_clock)\<rparr>)]\<rparr>)))"
    using addItem_creates [OF f _ _ _ _ _ m, of 2 example_clock] by (simp add: whole_examples)
  then show ?thesis using e m by (simp add: getCartItem_def map_add_def)
qed

text \<open>
  Without the validator nothing bounds the quantity: two adds of 600 give 1200.
\<close>

lemma addItem_unbounded_without_validator:
  "\<exists>s'. addItems (default_config\<lparr>inputValidator_defined := False\<rparr>) (JNum 1)
           [(example_clock, 600), (example_clock, 600)] empty_cart = ([], s')
        \<and> map_option quantity (getCartItem s' (JNum 1)) = Some 1200"
proof -
  let ?cfg = "default_config\<lparr>inputValidator_defined := False\<rparr>"
  have f: "findProduct (products ?cfg) 1 \<noteq> None"
    by (simp add: products_default findProduct_1)
  have v: "\<not> inputValidator_defined ?cfg" by simp
  have e: "getCartItem empty_cart (JNum 1) = None"
    by (simp add: getCartItem_def empty_cart_def new_state_def)
  from addItems_accumulate [OF f _ _ _ _ e, of "(example_clock, 600)" "[(example_clock, 600)]"] v
  show ?thesis by (auto simp: whole_examples)
qed




subsection \<open>The integer sanitizer\<close>

text \<open>
  C9. The integer sanitizer applied to quantity and product id inputs is meant to drop
  the fractional part toward zero and keep the sign (\<open>-2.7\<close> to \<open>-2\<close>). The code takes
  \<open>Math.floor\<close>, which rounds toward minus infinity: \<open>-2.7\<close> sanitizes to \<open>-3\<close>, for a
  number as for the text \<open>-2.7\<close>.
\<close>

theorem integer_sanitizer_floors_negative:
  "sanitize (JNum (- 27 / 10)) Quantity = Some (- 3)
   \<and> sanitize (JNum (- 27 / 10)) ProductId = Some (- 3)
   \<and> sanitize (JStr ''-2.7'') Quantity = Some (- 3)"
  by code_simp

subsection \<open>Backup rotation\<close>

text \<open>
  The backup keys of a key, in the order the store enumerates them; the key and the text
  one \<open>createBackup\<close> call writes; the clock \<open>n\<close> milliseconds (\<open>n\<close> below ten) after
  \<open>2023-11-14T22:13:20Z\<close>; the last five of a list.
\<close>

definition backups_in :: "string \<Rightarrow> storage \<Rightarrow> string list" where
  "backups_in key ls = backup_keys_of key (map fst (entries ls))"

definition backup_key :: "string \<Rightarrow> nat \<Rightarrow> string" where
  "backup_key key n = key @ ''_backup_'' @ show_nat n"

definition backup_text :: "clock \<Rightarrow> string \<Rightarrow> jsval \<Rightarrow> string" where
  "backup_text clk key d =
     stringify_text (JObj [(''originalKey'', JStr key), (''data'', d),
                           (''timestamp'', JStr (now_iso clk)), (''version'', JStr ''1.0'')])"

definition tick :: "nat \<Rightarrow> clock" where
  "tick n = \<lparr>now_ms = 1700000000000 + n, now_iso = ''2023-11-14T22:13:20.00'' @ show_nat n @ ''Z''\<rparr>"

definition last_five :: "nat list \<Rightarrow> nat list" where
  "last_five ns = drop (length ns - 5) ns"

text \<open>
  A key that contains the separator \<open>_backup_\<close> itself.
\<close>

definition nested_key :: string where
  "nested_key = ''a_backup_b''"

lemma set_insert_by: "set (insert_by cmp x xs) = insert x (set xs)"
  by (induction xs) auto

lemma length_insert_by: "length (insert_by cmp x xs) = Suc (length xs)"
  by (induction xs) auto

lemma distinct_insert_by: "distinct (insert_by cmp x xs) = (x \<notin> set xs \<and> distinct xs)"
  by (induction xs) (auto simp: set_insert_by)

lemma set_js_sort: "set (js_sort cmp xs) = set xs"
  by (induction xs) (auto simp: js_sort_def set_insert_by)

lemma length_js_sort: "length (js_sort cmp xs) = length xs"
  by (induction xs) (auto simp: js_sort_def length_insert_by)

lemma distinct_js_sort: "distinct (js_sort cmp xs) = distinct xs"
proof (induction xs)
  case Nil
  then show ?case by (simp add: js_sort_def)
next
  case (Cons x xs)
  have "js_sort cmp (x # xs) = insert_by cmp x (js_sort cmp xs)" by (simp add: js_sort_def)
  then show ?case using Cons by (simp add: distinct_insert_by set_js_sort)
qed

lemma sorted_insert_by:
  assumes "\<forall>a \<in> insert x (set ys). \<forall>b \<in> insert x (set ys). cmp a b = f b - f a"
    and "sorted_wrt (\<lambda>a b. f b \<le> f a) ys"
  shows "sorted_wrt (\<lambda>a b. f b \<le> (f a :: int)) (insert_by cmp x ys)"
  using assms
proof (induction ys)
  case Nil
  then show ?case by simp
next
  case (Cons y ys)
  have c: "cmp x y = f y - f x" using Cons.prems(1) by simp
  show ?case
  proof (cases "cmp x y \<le> 0")
    case True
    then have "f y \<le> f x" using c by simp
    then show ?thesis using True Cons.prems(2) by auto
  next
    case False
    then have "f x \<le> f y" using c by simp
    moreover have "sorted_wrt (\<lambda>a b. f b \<le> f a) (insert_by cmp x ys)"
      using Cons by auto
    ultimately show ?thesis using False Cons.prems(2) by (auto simp: set_insert_by)
  qed
qed

lemma sorted_js_sort:
  assumes "\<forall>a \<in> set xs. \<forall>b \<in> set xs. cmp a b = f b - f a"
  shows "sorted_wrt (\<lambda>a b. f b \<le> (f a :: int)) (js_sort cmp xs)"
  using assms
proof (induction xs)
  case Nil
  then show ?case by (simp add: js_sort_def)
next
  case (Cons x xs)
  have e: "js_sort cmp (x # xs) = insert_by cmp x (js_sort cmp xs)" by (simp add: js_sort_def)
  have "sorted_wrt (\<lambda>a b. f b \<le> f a) (js_sort cmp xs)" using Cons by simp
  then show ?case unfolding e using Cons.prems
    by (intro sorted_insert_by) (auto simp: set_js_sort)
qed

lemma sorted_take_drop:
  assumes "sorted_wrt R xs" "a \<in> set (take n xs)" "b \<in> set (drop n xs)"
  shows "R a b"
proof -
  have "sorted_wrt R (take n xs @ drop n xs)" using assms(1) by simp
  then show ?thesis using assms(2,3) unfolding sorted_wrt_append by blast
qed

lemma remove_backups_entries:
  assumes "accessFault ls = None"
  shows "entries (fst (remove_backups ks ls bk)) = filter (\<lambda>e. fst e \<notin> set ks) (entries ls)
       \<and> accessFault (fst (remove_backups ks ls bk)) = None
       \<and> writeFault (fst (remove_backups ks ls bk)) = writeFault ls"
  using assms
proof (induction ks arbitrary: ls bk)
  case Nil
  then show ?case by simp
next
  case (Cons k ks)
  let ?ls' = "ls\<lparr>entries := AList.delete k (entries ls)\<rparr>"
  have r: "Storage_removeItem ls k = Inr ?ls'" using Cons.prems by (simp add: Storage_removeItem_def)
  have "accessFault ?ls' = None" using Cons.prems by simp
  from Cons.IH [OF this, of "bk - {k}"] r show ?case
    by (auto simp: AList.delete_eq intro: filter_cong)
qed

lemma starts_with_append: "starts_with p (p @ t)"
  by (simp add: starts_with_def)

lemma backups_in_after_write:
  assumes "written = key @ ''_backup_'' @ t"
  shows "backup_keys_of key (map fst (AList.update written text al))
       = (if written \<in> set (backup_keys_of key (map fst al))
          then backup_keys_of key (map fst al)
          else backup_keys_of key (map fst al) @ [written])"
proof -
  have p: "written \<noteq> [] \<and> starts_with (key @ ''_backup_'') written"
    using assms starts_with_append [of "key @ ''_backup_''" t] by simp
  then show ?thesis
    by (auto simp: backup_keys_of_def update_keys)
qed

lemma backup_compare_difference:
  assumes "backup_timestamp a \<noteq> None" "backup_timestamp b \<noteq> None"
  shows "backup_compare a b = the (backup_timestamp b) - the (backup_timestamp a)"
  using assms by (auto simp: backup_compare_def)

lemma createBackup_no_fault:
  assumes "accessFault ls = None" "writeFault ls = None"
  shows "entries (fst (createBackup ls bk clk key d))
       = (let written = key @ ''_backup_'' @ show_nat (now_ms clk);
              al = AList.update written
                     (stringify_text (JObj [(''originalKey'', JStr key), (''data'', d),
                        (''timestamp'', JStr (now_iso clk)), (''version'', JStr ''1.0'')])) (entries ls)
          in filter (\<lambda>e. fst e \<notin> set (drop 5 (js_sort backup_compare (backup_keys_of key (map fst al))))) al)"
  using assms
  by (simp add: createBackup_def Let_def Storage_setItem_def cleanupOldBackups_def Storage_keys_def
      remove_backups_entries)

lemma createBackup_fault:
  assumes "accessFault ls \<noteq> None \<or> writeFault ls \<noteq> None"
  shows "fst (createBackup ls bk clk key d) = ls"
  using assms by (auto simp: createBackup_def Let_def Storage_setItem_def split: option.splits)

lemma keep_top:
  assumes d: "distinct cands"
    and wf: "\<forall>k \<in> set cands. backup_timestamp k \<noteq> None"
  shows "length (filter (\<lambda>k. k \<notin> set (drop n (js_sort backup_compare cands))) cands) = min n (length cands)
       \<and> (\<forall>k \<in> set (filter (\<lambda>k. k \<notin> set (drop n (js_sort backup_compare cands))) cands).
            \<forall>x \<in> set cands - set (filter (\<lambda>k. k \<notin> set (drop n (js_sort backup_compare cands))) cands).
              the (backup_timestamp x) \<le> the (backup_timestamp k))"
proof -
  let ?sorted = "js_sort backup_compare cands"
  let ?keep = "filter (\<lambda>k. k \<notin> set (drop n ?sorted)) cands"
  have ds: "distinct ?sorted" using d by (simp add: distinct_js_sort)
  have ss: "set ?sorted = set cands" by (rule set_js_sort)
  have split: "set (take n ?sorted) \<union> set (drop n ?sorted) = set cands"
    using ss by (metis append_take_drop_id set_append)
  have disj: "set (take n ?sorted) \<inter> set (drop n ?sorted) = {}"
    using ds by (metis append_take_drop_id distinct_append)
  have k: "set ?keep = set (take n ?sorted)" using split disj by auto
  have "distinct ?keep" using d by simp
  then have "length ?keep = card (set ?keep)" by (rule distinct_card [symmetric])
  also have "\<dots> = card (set (take n ?sorted))" using k by (rule arg_cong)
  also have "\<dots> = length (take n ?sorted)"
    using ds by (intro distinct_card distinct_take)
  finally have len: "length ?keep = min n (length cands)" by (simp add: length_js_sort min.commute)
  have "\<forall>a \<in> set cands. \<forall>b \<in> set cands.
          backup_compare a b = the (backup_timestamp b) - the (backup_timestamp a)"
    using wf backup_compare_difference by blast
  then have sorted: "sorted_wrt (\<lambda>a b. the (backup_timestamp b) \<le> the (backup_timestamp a)) ?sorted"
    by (rule sorted_js_sort)
  have "\<forall>k \<in> set ?keep. \<forall>x \<in> set cands - set ?keep. the (backup_timestamp x) \<le> the (backup_timestamp k)"
  proof (intro ballI)
    fix k x assume "k \<in> set ?keep" "x \<in> set cands - set ?keep"
    then have "k \<in> set (take n ?sorted)" "x \<in> set (drop n ?sorted)" using k split by auto
    then show "the (backup_timestamp x) \<le> the (backup_timestamp k)"
      using sorted_take_drop [OF sorted] by blast
  qed
  with len show ?thesis by blast
qed

lemma backup_keys_of_filter:
  "backup_keys_of key (map fst (filter (\<lambda>e. fst e \<notin> D) al))
     = filter (\<lambda>k. k \<notin> D) (backup_keys_of key (map fst al))"
  by (induction al) (auto simp: backup_keys_of_def)

lemma map_fst_filter: "map fst (filter (\<lambda>e. fst e \<notin> D) al) = filter (\<lambda>k. k \<notin> D) (map fst al)"
  by (induction al) auto

text \<open>
  One call. If the store refuses the read or the write, \<open>createBackup\<close> leaves it as it
  is. Otherwise, when the comparator can read a timestamp in every backup key of the key
  (those in the store and the one written), the backups that remain are five of the
  candidates, or all of them when there are fewer, and none that is removed carries a
  later timestamp than one that is kept.
\<close>

lemma createBackup_keeps_five_most_recent:
  assumes dist: "distinct (map fst (entries ls))"
    and old: "list_all (\<lambda>k. backup_timestamp k \<noteq> None) (backups_in key ls)"
    and new: "backup_timestamp (key @ ''_backup_'' @ show_nat (now_ms clk)) \<noteq> None"
  shows "let after = fst (createBackup ls bk clk key d);
             written = key @ ''_backup_'' @ show_nat (now_ms clk);
             candidates = (if written \<in> set (backups_in key ls) then backups_in key ls
                           else backups_in key ls @ [written])
         in if accessFault ls \<noteq> None \<or> writeFault ls \<noteq> None then after = ls
            else length (backups_in key after) = min 5 (length candidates)
               \<and> length (backups_in key after) \<le> 5
               \<and> set (backups_in key after) \<subseteq> set candidates
               \<and> (\<forall>k \<in> set (backups_in key after).
                    \<forall>x \<in> set candidates - set (backups_in key after).
                      \<exists>tk tx. backup_timestamp k = Some tk \<and> backup_timestamp x = Some tx \<and> tx \<le> tk)
               \<and> distinct (map fst (entries after))
               \<and> list_all (\<lambda>k. backup_timestamp k \<noteq> None) (backups_in key after)"
proof (cases "accessFault ls \<noteq> None \<or> writeFault ls \<noteq> None")
  case True
  then show ?thesis using createBackup_fault [OF True] by (simp add: Let_def)
next
  case False
  define written where "written = key @ ''_backup_'' @ show_nat (now_ms clk)"
  define blob where "blob = stringify_text (JObj [(''originalKey'', JStr key), (''data'', d),
      (''timestamp'', JStr (now_iso clk)), (''version'', JStr ''1.0'')])"
  define al where "al = AList.update written blob (entries ls)"
  define cands where "cands = backup_keys_of key (map fst al)"
  define D where "D = set (drop 5 (js_sort backup_compare cands))"
  define after where "after = fst (createBackup ls bk clk key d)"
  have e: "entries after = filter (\<lambda>e. fst e \<notin> D) al"
    using False createBackup_no_fault [of ls bk clk key d]
    by (simp add: Let_def after_def D_def cands_def al_def blob_def written_def)
  have c: "cands = (if written \<in> set (backups_in key ls) then backups_in key ls
                    else backups_in key ls @ [written])"
    unfolding cands_def al_def backups_in_def
    by (rule backups_in_after_write) (rule written_def)
  have surv: "backups_in key after = filter (\<lambda>k. k \<notin> D) cands"
    by (simp add: backups_in_def e backup_keys_of_filter cands_def)
  have dal: "distinct (map fst al)" using dist by (simp add: al_def distinct_update)
  then have dc: "distinct cands" by (simp add: cands_def backup_keys_of_def)
  have wf: "\<forall>k \<in> set cands. backup_timestamp k \<noteq> None"
    using old new by (auto simp: c written_def list_all_iff)
  from keep_top [OF dc wf, of 5]
  have len: "length (backups_in key after) = min 5 (length cands)"
    and top: "\<forall>k \<in> set (backups_in key after). \<forall>x \<in> set cands - set (backups_in key after).
        the (backup_timestamp x) \<le> the (backup_timestamp k)"
    unfolding surv D_def by blast+
  have sub: "set (backups_in key after) \<subseteq> set cands" by (auto simp: surv)
  have top': "\<forall>k \<in> set (backups_in key after). \<forall>x \<in> set cands - set (backups_in key after).
      \<exists>tk tx. backup_timestamp k = Some tk \<and> backup_timestamp x = Some tx \<and> tx \<le> tk"
  proof (intro ballI)
    fix k x assume k: "k \<in> set (backups_in key after)" and x: "x \<in> set cands - set (backups_in key after)"
    then obtain tk tx where t: "backup_timestamp k = Some tk" "backup_timestamp x = Some tx"
      using wf sub by fastforce
    have "the (backup_timestamp x) \<le> the (backup_timestamp k)" using top k x by blast
    then have "tx \<le> tk" using t by simp
    then show "\<exists>tk tx. backup_timestamp k = Some tk \<and> backup_timestamp x = Some tx \<and> tx \<le> tk"
      using t by blast
  qed
  have da: "distinct (map fst (entries after))" using dal by (simp add: e map_fst_filter)
  have wa: "list_all (\<lambda>k. backup_timestamp k \<noteq> None) (backups_in key after)"
    using wf sub by (auto simp: list_all_iff)
  show ?thesis
    using False len sub top' da wa
    unfolding Let_def after_def [symmetric] written_def [symmetric] c [symmetric]
    by simp
qed

text \<open>
  The key \<open>createBackup\<close> writes for a key without an underscore, the cart's key among
  them, reads back as the milliseconds of the clock.
\<close>

lemma digit_table:
  "list_all (\<lambda>d. is_digit (digit_char d) \<and> digit_val (digit_char d) = d) [0, 1, 2, 3, 4, 5, 6, 7, 8, 9]"
  by code_simp

lemma digit_char_props:
  assumes "d < 10"
  shows "is_digit (digit_char d) \<and> digit_val (digit_char d) = d"
proof -
  have "d \<in> set [0, 1, 2, 3, 4, 5, 6, 7, 8, 9]" using assms by auto
  then show ?thesis using digit_table unfolding list_all_iff by blast
qed

lemma digit_not_special:
  "list_all (\<lambda>c. \<not> is_space c \<and> c \<noteq> CHR ''-'' \<and> c \<noteq> CHR ''+'' \<and> c \<noteq> CHR ''x''
              \<and> c \<noteq> CHR ''X'' \<and> c \<noteq> CHR ''_'') ''0123456789''"
  by code_simp

lemma is_digit_plain:
  assumes "is_digit c"
  shows "\<not> is_space c \<and> c \<noteq> CHR ''-'' \<and> c \<noteq> CHR ''+'' \<and> c \<noteq> CHR ''x'' \<and> c \<noteq> CHR ''X'' \<and> c \<noteq> CHR ''_''"
proof -
  have "c \<in> set ''0123456789''" using assms unfolding is_digit_def .
  then show ?thesis using digit_not_special unfolding list_all_iff by blast
qed

lemma digits_val_snoc: "digits_val (ds @ [c]) = 10 * digits_val ds + digit_val c"
  by (simp add: digits_val_def)

lemma show_nat_props:
  "list_all is_digit (show_nat n) \<and> show_nat n \<noteq> [] \<and> digits_val (show_nat n) = n"
proof (induction n rule: show_nat.induct)
  case (1 n)
  show ?case
  proof (cases "n < 10")
    case True
    then have "show_nat n = [digit_char n]" by (subst show_nat.simps) simp
    then show ?thesis using digit_char_props [OF True] by (simp add: digits_val_def)
  next
    case False
    then have e: "show_nat n = show_nat (n div 10) @ [digit_char (n mod 10)]"
      by (subst show_nat.simps) simp
    have "n mod 10 < 10" by simp
    from digit_char_props [OF this] 1 [OF False] show ?thesis
      unfolding e by (simp add: digits_val_snoc)
  qed
qed

lemma show_nat_inject: "show_nat m = show_nat n \<Longrightarrow> m = n"
  by (metis show_nat_props)

lemma parseInt_digits:
  assumes "list_all is_digit ds" "ds \<noteq> []"
  shows "parseInt ds = Some (int (digits_val ds))"
proof -
  obtain c t where ds: "ds = c # t" using assms(2) by (cases ds) auto
  have c: "is_digit c" using assms(1) ds by simp
  note pc = is_digit_plain [OF c]
  have sp: "dropWhile is_space ds = ds" using pc ds by simp
  have sign: "(case ds of c # t \<Rightarrow> if c = CHR ''-'' then (True, t)
                            else if c = CHR ''+'' then (False, t) else (False, ds)
               | [] \<Rightarrow> (False, ds)) = (False, ds)"
    using pc ds by simp
  have hex: "(take 2 ds = ''0x'' \<or> take 2 ds = ''0X'') = False"
  proof (cases t)
    case Nil
    then show ?thesis using ds by simp
  next
    case (Cons c2 t2)
    then have "is_digit c2" using assms(1) ds by simp
    then show ?thesis using is_digit_plain [of c2] ds Cons by auto
  qed
  have tw: "takeWhile is_digit ds = ds" using assms(1) by (simp add: list_all_iff)
  show ?thesis
    unfolding parseInt_def sp sign Let_def prod.case hex tw using assms(2) by simp
qed

lemma after_first_written:
  "CHR ''_'' \<notin> set key \<Longrightarrow> after_first ''_backup_'' (key @ ''_backup_'' @ t) = Some t"
  by (induction key) (auto simp: starts_with_def)

lemma before_first_digits:
  "list_all is_digit t \<Longrightarrow> before_first ''_backup_'' t = t"
  by (induction t) (auto simp: starts_with_def dest: is_digit_plain)

lemma backup_timestamp_written:
  assumes "CHR ''_'' \<notin> set key"
  shows "backup_timestamp (key @ ''_backup_'' @ show_nat n) = Some (int n)"
proof -
  have a: "after_first ''_backup_'' (key @ ''_backup_'' @ show_nat n) = Some (show_nat n)"
    by (rule after_first_written [OF assms])
  have b: "before_first ''_backup_'' (show_nat n) = show_nat n"
    using show_nat_props [of n] by (simp add: before_first_digits)
  have c: "parseInt (show_nat n) = Some (int n)"
    using show_nat_props [of n] parseInt_digits [of "show_nat n"] by simp
  show ?thesis unfolding backup_timestamp_def split_second_def a by (simp add: b c)
qed

lemma storageKey_plain: "CHR ''_'' \<notin> set storageKey"
  by (simp add: storageKey_def)

text \<open>
  What one call leaves in a store that accepts reads and writes.
\<close>

lemma backup_key_inject [simp]: "(backup_key key m = backup_key key n) = (m = n)"
  using show_nat_inject by (auto simp: backup_key_def)

lemma backup_key_not_key [simp]: "backup_key key n \<noteq> key" "key \<noteq> backup_key key n"
  by (simp_all add: backup_key_def)

lemma backup_key_is_backup [simp]:
  "starts_with (key @ ''_backup_'') (backup_key key n)" "backup_key key n \<noteq> []"
  using starts_with_append [of "key @ ''_backup_''" "show_nat n"] by (simp_all add: backup_key_def)

lemma key_is_no_backup [simp]: "\<not> starts_with (key @ ''_backup_'') key"
proof
  assume "starts_with (key @ ''_backup_'') key"
  then have "take (length (key @ ''_backup_'')) key = key @ ''_backup_''"
    unfolding starts_with_def .
  then have "length (take (length (key @ ''_backup_'')) key) = length (key @ ''_backup_'')"
    by (rule arg_cong)
  then show False by simp
qed

lemma backup_timestamp_key [simp]:
  "CHR ''_'' \<notin> set key \<Longrightarrow> backup_timestamp (backup_key key n) = Some (int n)"
  unfolding backup_key_def by (rule backup_timestamp_written)

lemma backup_compare_keys [simp]:
  "CHR ''_'' \<notin> set key \<Longrightarrow> backup_compare (backup_key key m) (backup_key key n) = int n - int m"
  by (simp add: backup_compare_def)

lemma createBackup_result:
  assumes "accessFault ls = None" "writeFault ls = None"
  shows "fst (createBackup ls bk clk key d)
       = ls\<lparr>entries :=
            filter (\<lambda>e. fst e \<notin> set (drop 5 (js_sort backup_compare (backup_keys_of key
                      (map fst (AList.update (backup_key key (now_ms clk)) (backup_text clk key d) (entries ls)))))))
              (AList.update (backup_key key (now_ms clk)) (backup_text clk key d) (entries ls))\<rparr>"
proof -
  let ?ls1 = "ls\<lparr>entries := AList.update (backup_key key (now_ms clk)) (backup_text clk key d) (entries ls)\<rparr>"
  let ?ks = "drop 5 (js_sort backup_compare (backup_keys_of key
              (map fst (AList.update (backup_key key (now_ms clk)) (backup_text clk key d) (entries ls)))))"
  have w: "Storage_setItem ls (key @ ''_backup_'' @ show_nat (now_ms clk))
             (stringify_text (JObj [(''originalKey'', JStr key), (''data'', d),
                (''timestamp'', JStr (now_iso clk)), (''version'', JStr ''1.0'')])) = Inr ?ls1"
    using assms unfolding Storage_setItem_def backup_key_def backup_text_def by simp
  have c: "fst (createBackup ls bk clk key d)
      = fst (remove_backups ?ks ?ls1 (insert (key @ ''_backup_'' @ show_nat (now_ms clk)) bk))"
    using assms unfolding createBackup_def Let_def w
    by (simp add: cleanupOldBackups_def Storage_keys_def)
  have "accessFault ?ls1 = None" using assms by simp
  note r = remove_backups_entries [OF this, of ?ks]
  show ?thesis unfolding c
    by (rule storage.equality) (simp_all add: r assms)
qed

lemma createBackup_keeps_faults:
  assumes "accessFault ls = None" "writeFault ls = None"
  shows "accessFault (fst (createBackup ls bk clk key d)) = None"
    and "writeFault (fst (createBackup ls bk clk key d)) = None"
  unfolding createBackup_result [OF assms] using assms by simp_all

lemma backup_keys_of_written:
  "backup_keys_of key (map (backup_key key) ns) = map (backup_key key) ns"
  unfolding backup_keys_of_def by (intro filter_True) auto

lemma digit_chars:
  "digit_char 0 = CHR ''0''" "digit_char (Suc 0) = CHR ''1''" "digit_char 2 = CHR ''2''"
  "digit_char 3 = CHR ''3''" "digit_char 4 = CHR ''4''" "digit_char 5 = CHR ''5''"
  "digit_char 6 = CHR ''6''" "digit_char 7 = CHR ''7''" "digit_char 8 = CHR ''8''"
  "digit_char 9 = CHR ''9''"
  by code_simp+

lemma show_nat_digit: "n < 10 \<Longrightarrow> show_nat n = [digit_char n]"
  by (subst show_nat.simps) simp

lemma show_nat_digits: "10 \<le> n \<Longrightarrow> show_nat n = show_nat (n div 10) @ [digit_char (n mod 10)]"
  by (subst show_nat.simps) simp

text \<open>
  Calls at increasing times for a key without an underscore, on a store that holds only
  backups of that key: the last five written remain. For the cart's key, seven calls leave
  the backups of the third to the seventh.
\<close>

lemma insert_by_last: "\<forall>y \<in> set ys. 0 < cmp x y \<Longrightarrow> insert_by cmp x ys = ys @ [x]"
  by (induction ys) auto

lemma js_sort_ascending:
  assumes "CHR ''_'' \<notin> set key" "sorted_wrt (<) ns"
  shows "js_sort backup_compare (map (backup_key key) ns) = map (backup_key key) (rev ns)"
  using assms(2)
proof (induction ns)
  case Nil
  then show ?case by (simp add: js_sort_def)
next
  case (Cons n ns)
  then have "js_sort backup_compare (map (backup_key key) ns) = map (backup_key key) (rev ns)"
    by simp
  then have "js_sort backup_compare (map (backup_key key) (n # ns))
      = insert_by backup_compare (backup_key key n) (map (backup_key key) (rev ns))"
    by (simp add: js_sort_def)
  also have "\<dots> = map (backup_key key) (rev ns) @ [backup_key key n]"
    using Cons.prems assms(1) by (intro insert_by_last) auto
  finally show ?case by simp
qed

lemma keep_last:
  assumes "distinct ks"
  shows "filter (\<lambda>k. k \<notin> set (drop n (rev ks))) ks = drop (length ks - n) ks"
proof -
  let ?j = "length ks - n"
  have s: "set (drop n (rev ks)) = set (take ?j ks)" by (simp add: drop_rev)
  have d: "set (take ?j ks) \<inter> set (drop ?j ks) = {}"
    using assms by (metis append_take_drop_id distinct_append)
  have a: "filter (\<lambda>k. k \<notin> set (take ?j ks)) (take ?j ks) = []"
    by (intro filter_False) simp
  have b: "filter (\<lambda>k. k \<notin> set (take ?j ks)) (drop ?j ks) = drop ?j ks"
    using d by (intro filter_True) auto
  have "filter (\<lambda>k. k \<notin> set (take ?j ks)) (take ?j ks @ drop ?j ks) = drop ?j ks"
    unfolding filter_append a b by simp
  then show ?thesis unfolding s by simp
qed

lemma ascending_distinct: "sorted_wrt (<) (ns :: nat list) \<Longrightarrow> distinct ns"
  by (induction ns) auto

lemma step_plain:
  assumes "accessFault ls = None" "writeFault ls = None"
    and "CHR ''_'' \<notin> set key"
    and "map fst (entries ls) = map (backup_key key) ns"
    and "sorted_wrt (<) (ns @ [now_ms clk])"
  shows "map fst (entries (fst (createBackup ls bk clk key d)))
       = map (backup_key key) (last_five (ns @ [now_ms clk]))"
proof -
  let ?k = "backup_key key (now_ms clk)"
  let ?t = "backup_text clk key d"
  let ?ns = "ns @ [now_ms clk]"
  let ?ks = "map (backup_key key) ?ns"
  have fresh: "now_ms clk \<notin> set ns" using assms(5) by (auto simp: sorted_wrt_append)
  have "?k \<notin> set (map fst (entries ls))"
  proof
    assume "?k \<in> set (map fst (entries ls))"
    then obtain n where "n \<in> set ns" "backup_key key n = ?k"
      unfolding assms(4) by auto
    then show False using fresh by simp
  qed
  then have "?k \<notin> fst ` set (entries ls)" by simp
  then have u: "AList.update ?k ?t (entries ls) = entries ls @ [(?k, ?t)]"
    by (rule update_appends)
  have keys: "map fst (AList.update ?k ?t (entries ls)) = ?ks"
    unfolding u using assms(4) by simp
  have cands: "backup_keys_of key ?ks = ?ks" by (rule backup_keys_of_written)
  have sorted: "js_sort backup_compare ?ks = map (backup_key key) (rev ?ns)"
    by (rule js_sort_ascending [OF assms(3,5)])
  have "distinct ?ns" using assms(5) by (rule ascending_distinct)
  moreover have "inj_on (backup_key key) (set ?ns)" by (rule inj_onI) simp
  ultimately have dist: "distinct ?ks" unfolding distinct_map by blast
  have upd: "entries (ls\<lparr>entries := x\<rparr>) = x" for x by simp
  have e: "entries (fst (createBackup ls bk clk key d))
      = filter (\<lambda>e. fst e \<notin> set (drop 5 (map (backup_key key) (rev ?ns))))
          (AList.update ?k ?t (entries ls))"
    unfolding createBackup_result [OF assms(1,2)] keys cands sorted upd by (rule refl)
  have "map fst (entries (fst (createBackup ls bk clk key d)))
      = filter (\<lambda>k. k \<notin> set (drop 5 (rev ?ks))) ?ks"
    unfolding e map_fst_filter keys rev_map by (rule refl)
  also have "\<dots> = drop (length ?ks - 5) ?ks" using dist by (rule keep_last)
  finally show ?thesis unfolding last_five_def by (simp only: drop_map length_map)
qed

lemma createBackups_plain:
  assumes "accessFault ls = None" "writeFault ls = None"
    and "CHR ''_'' \<notin> set key"
    and "map fst (entries ls) = map (backup_key key) ns"
    and "sorted_wrt (<) (ns @ map (\<lambda>c. now_ms (fst c)) cs)"
  shows "map fst (entries (fst (createBackups ls bk key cs)))
       = map (backup_key key) (foldl (\<lambda>ns c. last_five (ns @ [now_ms (fst c)])) ns cs)"
  using assms(1,2,4,5)
proof (induction cs arbitrary: ls bk ns)
  case Nil
  then show ?case by simp
next
  case (Cons c cs)
  let ?ls = "fst (createBackup ls bk (fst c) key (snd c))"
  let ?bk = "snd (createBackup ls bk (fst c) key (snd c))"
  let ?ns = "last_five (ns @ [now_ms (fst c)])"
  have all: "sorted_wrt (<) ((ns @ [now_ms (fst c)]) @ map (\<lambda>c. now_ms (fst c)) cs)"
    using Cons.prems(4) by simp
  then have s: "sorted_wrt (<) (ns @ [now_ms (fst c)])"
    unfolding sorted_wrt_append [of _ "ns @ [now_ms (fst c)]"] by blast
  have f: "accessFault ?ls = None" "writeFault ?ls = None"
    using createBackup_keeps_faults [OF Cons.prems(1,2)] by simp_all
  have k: "map fst (entries ?ls) = map (backup_key key) ?ns"
    by (rule step_plain [OF Cons.prems(1,2) assms(3) Cons.prems(3) s])
  have "sorted_wrt (<) (?ns @ map (\<lambda>c. now_ms (fst c)) cs)"
    using all set_drop_subset [of "length (ns @ [now_ms (fst c)]) - 5" "ns @ [now_ms (fst c)]"]
      sorted_wrt_drop [of "(<)" "ns @ [now_ms (fst c)]" "length (ns @ [now_ms (fst c)]) - 5"]
    unfolding last_five_def sorted_wrt_append [of _ "ns @ [now_ms (fst c)]"]
      sorted_wrt_append [of _ "drop (length (ns @ [now_ms (fst c)]) - 5) (ns @ [now_ms (fst c)])"]
    by blast
  from Cons.IH [OF f k this, of ?bk] show ?case by simp
qed

lemma plain_key_backups:
  "backup_key storageKey 1700000000003 = ''shopping-cart-items_backup_1700000000003''"
  "backup_key storageKey 1700000000004 = ''shopping-cart-items_backup_1700000000004''"
  "backup_key storageKey 1700000000005 = ''shopping-cart-items_backup_1700000000005''"
  "backup_key storageKey 1700000000006 = ''shopping-cart-items_backup_1700000000006''"
  "backup_key storageKey 1700000000007 = ''shopping-cart-items_backup_1700000000007''"
  by (simp_all add: backup_key_def storageKey_def show_nat_digit show_nat_digits digit_chars)

lemma backup_rotation_of_the_cart:
  "map fst (entries (fst (createBackups empty_storage {} storageKey
      [(tick 1, JNull), (tick 2, JNull), (tick 3, JNull), (tick 4, JNull), (tick 5, JNull),
       (tick 6, JNull), (tick 7, JNull)])))
   = [''shopping-cart-items_backup_1700000000003'', ''shopping-cart-items_backup_1700000000004'',
      ''shopping-cart-items_backup_1700000000005'', ''shopping-cart-items_backup_1700000000006'',
      ''shopping-cart-items_backup_1700000000007'']"
proof -
  have e: "accessFault empty_storage = None" "writeFault empty_storage = None"
    by (simp_all add: empty_storage_def)
  have k: "map fst (entries empty_storage) = map (backup_key storageKey) []"
    by (simp add: empty_storage_def)
  have "map fst (entries (fst (createBackups empty_storage {} storageKey
      [(tick 1, JNull), (tick 2, JNull), (tick 3, JNull), (tick 4, JNull), (tick 5, JNull),
       (tick 6, JNull), (tick 7, JNull)])))
    = map (backup_key storageKey)
        [1700000000003, 1700000000004, 1700000000005, 1700000000006, 1700000000007]"
    by (subst createBackups_plain [OF e storageKey_plain k]) (simp_all add: tick_def last_five_def)
  then show ?thesis by (simp only: plain_key_backups list.map)
qed

text \<open>
  For the key \<open>a_backup_b\<close> the comparator reads \<open>b\<close> in every backup key, the text
  between the first two separators, so every comparison is \<open>NaN\<close> and the sort leaves the
  keys as the store enumerates them, in the order written: the first five written remain.
\<close>

lemma nested_key_timestamp: "backup_timestamp (backup_key nested_key n) = None"
  by (simp add: backup_key_def nested_key_def backup_timestamp_def split_second_def
      starts_with_def parseInt_def is_space_def is_digit_def Let_def)

lemma nested_key_compare [simp]:
  "backup_compare (backup_key nested_key m) (backup_key nested_key n) = 0"
  by (simp add: backup_compare_def nested_key_timestamp)

lemma js_sort_all_equal:
  assumes "\<forall>x \<in> set xs. \<forall>y \<in> set xs. cmp x y \<le> 0"
  shows "js_sort cmp xs = xs"
  using assms
proof (induction xs)
  case Nil
  then show ?case by (simp add: js_sort_def)
next
  case (Cons x xs)
  then have "js_sort cmp xs = xs" by simp
  then have "js_sort cmp (x # xs) = insert_by cmp x xs" by (simp add: js_sort_def)
  then show ?case using Cons.prems by (cases xs) simp_all
qed

lemma keep_first:
  assumes "distinct ks"
  shows "filter (\<lambda>k. k \<notin> set (drop n ks)) ks = take n ks"
proof -
  have d: "set (take n ks) \<inter> set (drop n ks) = {}"
    using assms by (metis append_take_drop_id distinct_append)
  have a: "filter (\<lambda>k. k \<notin> set (drop n ks)) (take n ks) = take n ks"
    using d by (intro filter_True) auto
  have b: "filter (\<lambda>k. k \<notin> set (drop n ks)) (drop n ks) = []"
    by (intro filter_False) simp
  have "filter (\<lambda>k. k \<notin> set (drop n ks)) (take n ks @ drop n ks) = take n ks"
    unfolding filter_append a b by simp
  then show ?thesis by simp
qed

lemma step_nested:
  assumes "accessFault ls = None" "writeFault ls = None"
    and "map fst (entries ls) = map (backup_key nested_key) ns"
    and "distinct ns" "now_ms clk \<notin> set ns"
  shows "map fst (entries (fst (createBackup ls bk clk nested_key d)))
       = map (backup_key nested_key) (take 5 (ns @ [now_ms clk]))"
proof -
  let ?k = "backup_key nested_key (now_ms clk)"
  let ?t = "backup_text clk nested_key d"
  let ?ks = "map (backup_key nested_key) (ns @ [now_ms clk])"
  have "?k \<notin> set (map fst (entries ls))"
  proof
    assume "?k \<in> set (map fst (entries ls))"
    then obtain n where "n \<in> set ns" "backup_key nested_key n = ?k"
      unfolding assms(3) by auto
    then show False using assms(5) by simp
  qed
  then have "?k \<notin> fst ` set (entries ls)" by simp
  then have u: "AList.update ?k ?t (entries ls) = entries ls @ [(?k, ?t)]"
    by (rule update_appends)
  have keys: "map fst (AList.update ?k ?t (entries ls)) = ?ks"
    unfolding u using assms(3) by simp
  have cands: "backup_keys_of nested_key ?ks = ?ks" by (rule backup_keys_of_written)
  have sorted: "js_sort backup_compare ?ks = ?ks"
    by (intro js_sort_all_equal) auto
  have "distinct (ns @ [now_ms clk])" using assms(4,5) by simp
  moreover have "inj_on (backup_key nested_key) (set (ns @ [now_ms clk]))"
    by (rule inj_onI) simp
  ultimately have dist: "distinct ?ks" unfolding distinct_map by blast
  have upd: "entries (ls\<lparr>entries := x\<rparr>) = x" for x by simp
  have e: "entries (fst (createBackup ls bk clk nested_key d))
      = filter (\<lambda>e. fst e \<notin> set (drop 5 ?ks)) (AList.update ?k ?t (entries ls))"
    unfolding createBackup_result [OF assms(1,2)] keys cands sorted upd by (rule refl)
  have "map fst (entries (fst (createBackup ls bk clk nested_key d)))
      = filter (\<lambda>k. k \<notin> set (drop 5 ?ks)) ?ks"
    unfolding e map_fst_filter keys by (rule refl)
  also have "\<dots> = take 5 ?ks" using dist by (rule keep_first)
  finally show ?thesis by (simp only: take_map)
qed

lemma createBackups_nested:
  assumes "accessFault ls = None" "writeFault ls = None"
    and "map fst (entries ls) = map (backup_key nested_key) ns"
    and "distinct (ns @ map (\<lambda>c. now_ms (fst c)) cs)"
  shows "map fst (entries (fst (createBackups ls bk nested_key cs)))
       = map (backup_key nested_key) (foldl (\<lambda>ns c. take 5 (ns @ [now_ms (fst c)])) ns cs)"
  using assms
proof (induction cs arbitrary: ls bk ns)
  case Nil
  then show ?case by simp
next
  case (Cons c cs)
  let ?ls = "fst (createBackup ls bk (fst c) nested_key (snd c))"
  let ?bk = "snd (createBackup ls bk (fst c) nested_key (snd c))"
  let ?ns = "take 5 (ns @ [now_ms (fst c)])"
  have d: "distinct ns" "now_ms (fst c) \<notin> set ns" using Cons.prems(4) by auto
  have f: "accessFault ?ls = None" "writeFault ?ls = None"
    using createBackup_keeps_faults [OF Cons.prems(1,2)] by simp_all
  have k: "map fst (entries ?ls) = map (backup_key nested_key) ?ns"
    by (rule step_nested [OF Cons.prems(1-3) d])
  have "distinct ((ns @ [now_ms (fst c)]) @ map (\<lambda>c. now_ms (fst c)) cs)"
    using Cons.prems(4) by simp
  then have "distinct (?ns @ map (\<lambda>c. now_ms (fst c)) cs)"
    using set_take_subset [of 5 "ns @ [now_ms (fst c)]"]
    by (simp only: distinct_append distinct_take) blast
  from Cons.IH [OF f k this, of ?bk] show ?case by simp
qed

lemma nested_key_backups:
  "backup_key ''a_backup_b'' 1700000000001 = ''a_backup_b_backup_1700000000001''"
  "backup_key ''a_backup_b'' 1700000000002 = ''a_backup_b_backup_1700000000002''"
  "backup_key ''a_backup_b'' 1700000000003 = ''a_backup_b_backup_1700000000003''"
  "backup_key ''a_backup_b'' 1700000000004 = ''a_backup_b_backup_1700000000004''"
  "backup_key ''a_backup_b'' 1700000000005 = ''a_backup_b_backup_1700000000005''"
  by (simp_all add: backup_key_def show_nat_digit show_nat_digits digit_chars)

text \<open>
  C8. After every \<open>createBackup(key, data)\<close> call at most five backups of the key are
  meant to remain, the most recent by the timestamp in their keys. For the key
  \<open>a_backup_b\<close> the code keeps the oldest instead: seven calls at increasing times on an
  empty store leave the backups of the first five calls, and the backups of the sixth and
  the seventh call, the two most recent, are removed by the very calls that write them.
\<close>

theorem backup_rotation_keeps_oldest:
  "map fst (entries (fst (createBackups empty_storage {} ''a_backup_b''
      [(tick 1, JNull), (tick 2, JNull), (tick 3, JNull), (tick 4, JNull), (tick 5, JNull),
       (tick 6, JNull), (tick 7, JNull)])))
   = [''a_backup_b_backup_1700000000001'', ''a_backup_b_backup_1700000000002'',
      ''a_backup_b_backup_1700000000003'', ''a_backup_b_backup_1700000000004'',
      ''a_backup_b_backup_1700000000005'']"
proof -
  have e: "accessFault empty_storage = None" "writeFault empty_storage = None"
    "map fst (entries empty_storage) = map (backup_key nested_key) []"
    by (simp_all add: empty_storage_def)
  have "map fst (entries (fst (createBackups empty_storage {} nested_key
      [(tick 1, JNull), (tick 2, JNull), (tick 3, JNull), (tick 4, JNull), (tick 5, JNull),
       (tick 6, JNull), (tick 7, JNull)])))
    = map (backup_key nested_key)
        [1700000000001, 1700000000002, 1700000000003, 1700000000004, 1700000000005]"
    by (subst createBackups_nested [OF e]) (simp_all add: tick_def)
  then show ?thesis unfolding nested_key_def by (simp only: nested_key_backups list.map)
qed

end
